theory Spec2Isabelle
  imports Main "HOL-Library.Word"
begin

unbundle bit_operations_syntax

section \<open>Token amounts\<close>

text \<open>
  \<^verbatim>\<open>abi.TokenAmount\<close> is \<^verbatim>\<open>big.Int\<close> of go-state-types: a struct around a pointer
  \<^verbatim>\<open>*math/big.Int\<close>. The pointer may be nil (the unset amount, the zero value of the
  struct); \<open>None\<close> is that nil, \<open>Some i\<close> an arbitrary-precision integer.
  A method called through a nil pointer dereferences it and the Go runtime panics;
  the panic is a value of the model.
\<close>

type_synonym TokenAmount = "int option"

datatype panic = NilPointerDereference | DivisionByZero

text \<open>
  \<^verbatim>\<open>func Cmp(a, b Int) int { return a.Int.Cmp(b.Int) }\<close>. \<^verbatim>\<open>(*big.Int).Cmp\<close> first
  compares the two pointers (\<^verbatim>\<open>case x == y\<close>: result 0, nothing is read) and reads the
  operands otherwise.
\<close>

fun big_Cmp :: "TokenAmount \<Rightarrow> TokenAmount \<Rightarrow> panic + int" where
  "big_Cmp None None = Inr 0"
| "big_Cmp (Some x) (Some y) = Inr (if x < y then - 1 else if x = y then 0 else 1)"
| "big_Cmp a b = Inl NilPointerDereference"

text \<open>\<^verbatim>\<open>func (bi Int) LessThan(o Int) bool { return Cmp(bi, o) < 0 }\<close>, and \<^verbatim>\<open>GreaterThan\<close> alike.\<close>

definition LessThan :: "TokenAmount \<Rightarrow> TokenAmount \<Rightarrow> panic + bool" where
  "LessThan bi oth = (case big_Cmp bi oth of Inl e \<Rightarrow> Inl e | Inr c \<Rightarrow> Inr (c < 0))"

definition GreaterThan :: "TokenAmount \<Rightarrow> TokenAmount \<Rightarrow> panic + bool" where
  "GreaterThan bi oth = (case big_Cmp bi oth of Inl e \<Rightarrow> Inl e | Inr c \<Rightarrow> Inr (0 < c))"

text \<open>\<^verbatim>\<open>func (bi Int) IsZero() bool { return bi.Int.Sign() == 0 }\<close>: \<^verbatim>\<open>Sign\<close> reads its receiver.\<close>

fun IsZero :: "TokenAmount \<Rightarrow> panic + bool" where
  "IsZero None = Inl NilPointerDereference"
| "IsZero (Some x) = Inr (x = 0)"

text \<open>\<^verbatim>\<open>func (bi Int) NilOrZero() bool { return bi.Int == nil || bi.Int.Sign() == 0 }\<close>\<close>

fun NilOrZero :: "TokenAmount \<Rightarrow> bool" where
  "NilOrZero None = True"
| "NilOrZero (Some x) = (x = 0)"

text \<open>
  \<^verbatim>\<open>big.Sub\<close>, \<^verbatim>\<open>big.Mul\<close> and \<^verbatim>\<open>big.Div\<close> build a fresh integer from both operands, which
  they read. \<^verbatim>\<open>(*big.Int).Div\<close> is Euclidean division (the remainder is never negative) and
  panics on a zero divisor.
\<close>

fun big_Sub :: "TokenAmount \<Rightarrow> TokenAmount \<Rightarrow> panic + TokenAmount" where
  "big_Sub (Some x) (Some y) = Inr (Some (x - y))"
| "big_Sub a b = Inl NilPointerDereference"

fun big_Mul :: "TokenAmount \<Rightarrow> TokenAmount \<Rightarrow> panic + TokenAmount" where
  "big_Mul (Some x) (Some y) = Inr (Some (x * y))"
| "big_Mul a b = Inl NilPointerDereference"

fun big_Div :: "TokenAmount \<Rightarrow> TokenAmount \<Rightarrow> panic + TokenAmount" where
  "big_Div (Some x) (Some y) =
     (if y = 0 then Inl DivisionByZero
      else if 0 < y then Inr (Some (x div y))
      else Inr (Some (- (x div (- y)))))"
| "big_Div a b = Inl NilPointerDereference"

text \<open>\<^verbatim>\<open>big.NewInt(i int64)\<close> and \<^verbatim>\<open>big.Zero()\<close> never return nil.\<close>

definition big_NewInt :: "64 word \<Rightarrow> TokenAmount" where
  "big_NewInt i = Some (sint i)"

definition big_Zero :: TokenAmount where
  "big_Zero = big_NewInt 0"

text \<open>\<^verbatim>\<open>(*big.Int).Uint64\<close>: the low 64 bits of the magnitude.\<close>

fun big_Uint64 :: "TokenAmount \<Rightarrow> panic + 64 word" where
  "big_Uint64 None = Inl NilPointerDereference"
| "big_Uint64 (Some x) = Inr (word_of_int \<bar>x\<bar>)"

section \<open>Errors, pieces and sectors\<close>

text \<open>
  A Go \<^verbatim>\<open>error\<close> value: \<open>New msg\<close> is \<^verbatim>\<open>xerrors.New(msg)\<close> or \<^verbatim>\<open>fmt.Errorf(msg)\<close>,
  \<open>Wrapped msg err\<close> is \<^verbatim>\<open>xerrors.Errorf(msg + ": %w", err)\<close>. An error of a collaborator
  is any such value.
\<close>

datatype error = New string | Wrapped string error

type_synonym Cid = "8 word list"

text \<open>
  \<^verbatim>\<open>piecestore.DealInfo\<close> and \<^verbatim>\<open>piecestore.PieceInfo\<close>: a piece and the sectors (deals)
  that hold a copy of it. Offsets and lengths are padded piece sizes (\<^verbatim>\<open>uint64\<close>);
  \<^verbatim>\<open>PaddedPieceSize.Unpadded\<close> is \<^verbatim>\<open>s - (s >> 7)\<close>.
\<close>

record DealInfo =
  DealID :: "64 word"
  SectorID :: "64 word"
  Offset :: "64 word"
  Length :: "64 word"

record PieceInfo =
  PieceCID :: Cid
  Deals :: "DealInfo list"

definition Unpadded :: "64 word \<Rightarrow> 64 word" where
  "Unpadded s = s - drop_bit 7 s"

section \<open>Generic nodes and deal parameters\<close>

text \<open>
  \<^verbatim>\<open>datamodel.Node\<close> of go-ipld-prime, by kind (floats play no role here).
  A Go interface value of that type is a \<open>Node option\<close>: \<open>None\<close> is the nil interface,
  \<open>Some NNull\<close> the node \<^verbatim>\<open>datamodel.Null\<close>.
\<close>

datatype Node =
    NNull
  | NBool bool
  | NInt int
  | NString string
  | NBytes "8 word list"
  | NList "Node list"
  | NMap "(string \<times> Node) list"
  | NLink Cid

record CborGenCompatibleNode =
  Node :: "Node option"

record Params =
  Selector :: CborGenCompatibleNode
  PieceCID :: "Cid option"
  PricePerByte :: TokenAmount
  PaymentInterval :: "64 word"
  PaymentIntervalIncrease :: "64 word"
  UnsealPrice :: TokenAmount

section \<open>Payment schedule\<close>

text \<open>
  The loop of \<^verbatim>\<open>Params.IntervalLowerBound\<close>, on \<^verbatim>\<open>uint64\<close> (additions wrap around):
  \<^verbatim>\<open>for target <= currentInterval { lowerBound = target; target += intervalSize;
  intervalSize += p.PaymentIntervalIncrease }\<close>. \<open>None\<close> is a loop that never exits.
\<close>

partial_function (option) IntervalLowerBound_loop ::
  "64 word \<Rightarrow> 64 word \<Rightarrow> 64 word \<Rightarrow> 64 word \<Rightarrow> 64 word \<Rightarrow> 64 word option" where
  "IntervalLowerBound_loop increase currentInterval intervalSize lowerBound target =
     (if target \<le> currentInterval
      then IntervalLowerBound_loop increase currentInterval
             (intervalSize + increase) target (target + intervalSize)
      else Some lowerBound)"

definition IntervalLowerBound :: "Params \<Rightarrow> 64 word \<Rightarrow> 64 word option" where
  "IntervalLowerBound p currentInterval =
     IntervalLowerBound_loop (PaymentIntervalIncrease p) currentInterval (PaymentInterval p) 0 0"

text \<open>
  The loop of \<^verbatim>\<open>Params.nextInterval\<close>:
  \<^verbatim>\<open>for nextInterval <= currentInterval { nextInterval += intervalSize;
  intervalSize += p.PaymentIntervalIncrease }\<close>.
\<close>

partial_function (option) nextInterval_loop ::
  "64 word \<Rightarrow> 64 word \<Rightarrow> 64 word \<Rightarrow> 64 word \<Rightarrow> 64 word option" where
  "nextInterval_loop increase currentInterval intervalSize nextInterval =
     (if nextInterval \<le> currentInterval
      then nextInterval_loop increase currentInterval
             (intervalSize + increase) (nextInterval + intervalSize)
      else Some nextInterval)"

definition nextInterval :: "Params \<Rightarrow> 64 word \<Rightarrow> 64 word option" where
  "nextInterval p currentInterval =
     nextInterval_loop (PaymentIntervalIncrease p) currentInterval (PaymentInterval p) 0"

text \<open>
  \<^verbatim>\<open>Params.OutstandingBalance\<close>. The result is \<open>None\<close> when the call never returns,
  \<open>Some (Inl e)\<close> when it panics, \<open>Some (Inr owed)\<close> when it returns \<open>owed\<close>.
  \<^verbatim>\<open>IntervalLowerBound(sent)\<close> is called before \<^verbatim>\<open>inFinalization\<close> is looked at, and
  \<^verbatim>\<open>int64(minimumBytesToPay)\<close> reinterprets the 64 bits as a signed number.
\<close>

definition OutstandingBalance ::
  "Params \<Rightarrow> TokenAmount \<Rightarrow> 64 word \<Rightarrow> bool \<Rightarrow> (panic + TokenAmount) option" where
  "OutstandingBalance p fundsReceived sent inFinalization =
     (case LessThan fundsReceived (UnsealPrice p) of
        Inl e \<Rightarrow> Some (Inl e)
      | Inr True \<Rightarrow> Some (big_Sub (UnsealPrice p) fundsReceived)
      | Inr False \<Rightarrow>
          (case IsZero (PricePerByte p) of
             Inl e \<Rightarrow> Some (Inl e)
           | Inr True \<Rightarrow> Some (Inr big_Zero)
           | Inr False \<Rightarrow>
               (case big_Sub fundsReceived (UnsealPrice p) of
                  Inl e \<Rightarrow> Some (Inl e)
                | Inr transferPayment \<Rightarrow>
                    (case IntervalLowerBound p sent of
                       None \<Rightarrow> None
                     | Some lowerBound \<Rightarrow>
                         (let minimumBytesToPay = (if inFinalization then sent else lowerBound) in
                          case big_Mul (big_NewInt minimumBytesToPay) (PricePerByte p) of
                            Inl e \<Rightarrow> Some (Inl e)
                          | Inr totalPaymentRequired \<Rightarrow>
                              (case big_Sub totalPaymentRequired transferPayment of
                                 Inl e \<Rightarrow> Some (Inl e)
                               | Inr owed \<Rightarrow>
                                   (case LessThan owed big_Zero of
                                      Inl e \<Rightarrow> Some (Inl e)
                                    | Inr True \<Rightarrow> Some (Inr big_Zero)
                                    | Inr False \<Rightarrow> Some (Inr owed))))))))"

text \<open>
  \<^verbatim>\<open>Params.NextInterval\<close>: the interval implied by the funds received. A nil or zero
  price per byte returns 0 before anything else is read.
\<close>

definition NextInterval :: "Params \<Rightarrow> TokenAmount \<Rightarrow> (panic + 64 word) option" where
  "NextInterval p fundsReceived =
     (if NilOrZero (PricePerByte p) then Some (Inr 0)
      else
        (case (if \<not> NilOrZero (UnsealPrice p) then big_Sub fundsReceived (UnsealPrice p)
               else Inr fundsReceived) of
           Inl e \<Rightarrow> Some (Inl e)
         | Inr bytesPaid0 \<Rightarrow>
             (case big_Div bytesPaid0 (PricePerByte p) of
                Inl e \<Rightarrow> Some (Inl e)
              | Inr bytesPaid \<Rightarrow>
                  (case GreaterThan bytesPaid big_Zero of
                     Inl e \<Rightarrow> Some (Inl e)
                   | Inr gt \<Rightarrow>
                       (case (if gt then big_Uint64 bytesPaid else Inr 0) of
                          Inl e \<Rightarrow> Some (Inl e)
                        | Inr currentInterval \<Rightarrow>
                            (case nextInterval p currentInterval of
                               None \<Rightarrow> None
                             | Some n \<Rightarrow> Some (Inr n)))))))"

text \<open>
  The payment boundaries as the schedule means them, without overflow:
  \<open>B 0 = 0\<close> and \<open>B (k + 1) = B k + (interval + k * increase)\<close>.
\<close>

primrec boundary :: "nat \<Rightarrow> nat \<Rightarrow> nat \<Rightarrow> nat" where
  "boundary a d 0 = 0"
| "boundary a d (Suc k) = boundary a d k + (a + k * d)"

text \<open>The same boundary as the loops compute it, reduced modulo \<open>2 ^ 64\<close>.\<close>

definition wboundary :: "Params \<Rightarrow> nat \<Rightarrow> 64 word" where
  "wboundary p k = of_nat (boundary (unat (PaymentInterval p)) (unat (PaymentIntervalIncrease p)) k)"

definition isize :: "Params \<Rightarrow> nat \<Rightarrow> 64 word" where
  "isize p k = PaymentInterval p + of_nat k * PaymentIntervalIncrease p"

text \<open>The parameters of the schedule's worked example, and variants of them.\<close>

definition example_params :: Params where
  "example_params = \<lparr>Selector = \<lparr>Node = None\<rparr>, PieceCID = None, PricePerByte = Some 10,
     PaymentInterval = 100, PaymentIntervalIncrease = 50, UnsealPrice = Some 0\<rparr>"

definition stalled_params :: Params where
  "stalled_params = example_params\<lparr>PaymentInterval := 0, PaymentIntervalIncrease := 0\<rparr>"

definition unit_params :: Params where
  "unit_params = example_params\<lparr>PaymentInterval := 1, PaymentIntervalIncrease := 0\<rparr>"

definition wrapping_params :: Params where
  "wrapping_params = example_params\<lparr>PaymentInterval := 100,
     PaymentIntervalIncrease := 12297829382473034314\<rparr>"

definition nil_price_params :: Params where
  "nil_price_params = example_params\<lparr>PricePerByte := None\<rparr>"

definition free_stalled_params :: Params where
  "free_stalled_params = stalled_params\<lparr>PricePerByte := Some 0\<rparr>"

definition fee_stalled_params :: Params where
  "fee_stalled_params = stalled_params\<lparr>UnsealPrice := Some 100\<rparr>"

section \<open>Constructing parameters\<close>

text \<open>
  Modelled from the spec: \<^verbatim>\<open>shared.CborGenCompatibleNode.IsNull\<close> is not among the sources.
  The spec calls the selector present when it is "not the null marker": the wrapper is null
  when it holds no node at all or the null node.
\<close>

definition IsNull :: "CborGenCompatibleNode \<Rightarrow> bool" where
  "IsNull sn = (Node sn = None \<or> Node sn = Some NNull)"

definition SelectorSpecified :: "Params \<Rightarrow> bool" where
  "SelectorSpecified p = (\<not> IsNull (Selector p))"

text \<open>\<^verbatim>\<open>Params{}\<close>, the zero value: every field nil or 0.\<close>

definition Params_zero :: Params where
  "Params_zero = \<lparr>Selector = \<lparr>Node = None\<rparr>, PieceCID = None, PricePerByte = None,
     PaymentInterval = 0, PaymentIntervalIncrease = 0, UnsealPrice = None\<rparr>"

text \<open>\<^verbatim>\<open>NewParamsV1\<close> returns the pair \<^verbatim>\<open>(Params, error)\<close>; \<open>None\<close> is the nil error.\<close>

definition NewParamsV1 ::
  "TokenAmount \<Rightarrow> 64 word \<Rightarrow> 64 word \<Rightarrow> Node option \<Rightarrow> Cid option \<Rightarrow> TokenAmount
     \<Rightarrow> Params \<times> error option" where
  "NewParamsV1 pricePerByte paymentInterval paymentIntervalIncrease sel pieceCid unsealPrice =
     (if sel = None then (Params_zero, Some (New ''selector required for NewParamsV1''))
      else (\<lparr>Selector = \<lparr>Node = sel\<rparr>, PieceCID = pieceCid, PricePerByte = pricePerByte,
             PaymentInterval = paymentInterval, PaymentIntervalIncrease = paymentIntervalIncrease,
             UnsealPrice = unsealPrice\<rparr>, None))"

section \<open>Deal status\<close>

text \<open>
  \<^verbatim>\<open>DealStatus\<close> is a \<^verbatim>\<open>uint64\<close>. Its constants are declared in another file of the
  package; the four that the predicates compare with are parameters here.
\<close>

type_synonym DealStatus = "64 word"

record DealStatusCodes =
  DealStatusDealNotFound :: DealStatus
  DealStatusFailing :: DealStatus
  DealStatusRejected :: DealStatus
  DealStatusCompleted :: DealStatus

definition IsTerminalError :: "DealStatusCodes \<Rightarrow> DealStatus \<Rightarrow> bool" where
  "IsTerminalError K status =
     (status = DealStatusDealNotFound K \<or> status = DealStatusFailing K
      \<or> status = DealStatusRejected K)"

definition IsTerminalSuccess :: "DealStatusCodes \<Rightarrow> DealStatus \<Rightarrow> bool" where
  "IsTerminalSuccess K status = (status = DealStatusCompleted K)"

definition IsTerminalStatus :: "DealStatusCodes \<Rightarrow> DealStatus \<Rightarrow> bool" where
  "IsTerminalStatus K status = (IsTerminalError K status \<or> IsTerminalSuccess K status)"

section \<open>Deal messages decoded from a node\<close>

type_synonym DealID = "64 word"

record DealProposal =
  PayloadCID :: Cid
  ID :: DealID
  Params :: Params

record DealResponse =
  Status :: DealStatus
  ID :: DealID
  PaymentOwed :: TokenAmount
  Message :: string

text \<open>The signed voucher of a payment is an opaque blob here.\<close>

record DealPayment =
  ID :: DealID
  PaymentChannel :: "8 word list"
  PaymentVoucher :: "8 word list option"

text \<open>
  \<^verbatim>\<open>shared.TypeFromNode(node, ptrValue)\<close> is not among the sources; the decoders take
  it as an argument: given a node and the type asked for (the prototype pointer), it
  returns an error or a value of some dynamic type (\<^verbatim>\<open>interface{}\<close>).
\<close>

datatype Prototype = DealProposalPtr | DealResponsePtr | DealPaymentPtr

datatype Iface =
    IsDealProposal DealProposal
  | IsDealResponse DealResponse
  | IsDealPayment DealPayment

type_synonym TypeFromNode = "Node \<Rightarrow> Prototype \<Rightarrow> error + Iface"

text \<open>
  Each decoder returns the Go pair (pointer, error). The type assertion
  \<^verbatim>\<open>dp, _ := dpIface.(*DealProposal)\<close> is the two-result form: on another dynamic type it
  yields the nil pointer, it does not panic.
\<close>

definition DealProposalFromNode ::
  "TypeFromNode \<Rightarrow> Node option \<Rightarrow> DealProposal option \<times> error option" where
  "DealProposalFromNode typeFromNode node =
     (case node of
        None \<Rightarrow> (None, Some (New ''empty voucher''))
      | Some n \<Rightarrow>
          (case typeFromNode n DealProposalPtr of
             Inl err \<Rightarrow> (None, Some (Wrapped ''invalid DealProposal'' err))
           | Inr dpIface \<Rightarrow>
               ((case dpIface of IsDealProposal dp \<Rightarrow> Some dp | _ \<Rightarrow> None), None)))"

definition DealResponseFromNode ::
  "TypeFromNode \<Rightarrow> Node option \<Rightarrow> DealResponse option \<times> error option" where
  "DealResponseFromNode typeFromNode node =
     (case node of
        None \<Rightarrow> (None, Some (New ''empty voucher''))
      | Some n \<Rightarrow>
          (case typeFromNode n DealResponsePtr of
             Inl err \<Rightarrow> (None, Some (Wrapped ''invalid DealResponse'' err))
           | Inr dpIface \<Rightarrow>
               ((case dpIface of IsDealResponse dp \<Rightarrow> Some dp | _ \<Rightarrow> None), None)))"

definition DealPaymentFromNode ::
  "TypeFromNode \<Rightarrow> Node option \<Rightarrow> DealPayment option \<times> error option" where
  "DealPaymentFromNode typeFromNode node =
     (case node of
        None \<Rightarrow> (None, Some (New ''empty voucher''))
      | Some n \<Rightarrow>
          (case typeFromNode n DealPaymentPtr of
             Inl err \<Rightarrow> (None, Some (Wrapped ''invalid DealPayment'' err))
           | Inr dpIface \<Rightarrow>
               ((case dpIface of IsDealPayment dp \<Rightarrow> Some dp | _ \<Rightarrow> None), None)))"

section \<open>Validating a node against a schema\<close>

text \<open>
  The shapes that \<^verbatim>\<open>BindnodeSchema\<close> declares for the three messages, as a datatype of
  schemas: a struct is a map with its fields in the declared order, a struct with
  \<^verbatim>\<open>representation tuple\<close> a list of its fields, \<^verbatim>\<open>&Any\<close> a link, and \<^verbatim>\<open>Any\<close> any
  node but null.
\<close>

datatype Schema =
    SInt
  | SBytes
  | SString
  | SLink
  | SAny
  | SNullable Schema
  | SList Schema
  | SStruct "(string \<times> Schema) list"
  | STuple "(string \<times> Schema) list"

definition Params_schema :: Schema where
  "Params_schema = SStruct
     [(''Selector'', SNullable SAny), (''PieceCID'', SNullable SLink),
      (''PricePerByte'', SBytes), (''PaymentInterval'', SInt),
      (''PaymentIntervalIncrease'', SInt), (''UnsealPrice'', SBytes)]"

definition DealProposal_schema :: Schema where
  "DealProposal_schema = SStruct
     [(''PayloadCID'', SLink), (''ID'', SInt), (''Params'', Params_schema)]"

definition DealResponse_schema :: Schema where
  "DealResponse_schema = SStruct
     [(''Status'', SInt), (''ID'', SInt), (''PaymentOwed'', SBytes), (''Message'', SString)]"

definition Merge_schema :: Schema where
  "Merge_schema = STuple [(''Lane'', SInt), (''Nonce'', SInt)]"

definition ModVerifyParams_schema :: Schema where
  "ModVerifyParams_schema = STuple [(''Actor'', SBytes), (''Method'', SInt), (''Data'', SBytes)]"

definition SignedVoucher_schema :: Schema where
  "SignedVoucher_schema = STuple
     [(''ChannelAddr'', SBytes), (''TimeLockMin'', SInt), (''TimeLockMax'', SInt),
      (''SecretPreimage'', SBytes), (''Extra'', SNullable ModVerifyParams_schema),
      (''Lane'', SInt), (''Nonce'', SInt), (''Amount'', SBytes), (''MinSettleHeight'', SInt),
      (''Merges'', SList Merge_schema), (''Signature'', SNullable SBytes)]"

definition DealPayment_schema :: Schema where
  "DealPayment_schema = SStruct
     [(''ID'', SInt), (''PaymentChannel'', SBytes),
      (''PaymentVoucher'', SNullable SignedVoucher_schema)]"

fun BindnodeSchema :: "Prototype \<Rightarrow> Schema" where
  "BindnodeSchema DealProposalPtr = DealProposal_schema"
| "BindnodeSchema DealResponsePtr = DealResponse_schema"
| "BindnodeSchema DealPaymentPtr = DealPayment_schema"

text \<open>A node has the shape of a schema.\<close>

fun conforms :: "Schema \<Rightarrow> Node \<Rightarrow> bool"
  and conforms_fields :: "(string \<times> Schema) list \<Rightarrow> (string \<times> Node) list \<Rightarrow> bool"
  and conforms_tuple :: "(string \<times> Schema) list \<Rightarrow> Node list \<Rightarrow> bool"
  and conforms_all :: "Schema \<Rightarrow> Node list \<Rightarrow> bool" where
  "conforms SInt n = (case n of NInt i \<Rightarrow> True | _ \<Rightarrow> False)"
| "conforms SBytes n = (case n of NBytes b \<Rightarrow> True | _ \<Rightarrow> False)"
| "conforms SString n = (case n of NString s \<Rightarrow> True | _ \<Rightarrow> False)"
| "conforms SLink n = (case n of NLink c \<Rightarrow> True | _ \<Rightarrow> False)"
| "conforms SAny n = (n \<noteq> NNull)"
| "conforms (SNullable s) n = (n = NNull \<or> conforms s n)"
| "conforms (SList s) n = (case n of NList ns \<Rightarrow> conforms_all s ns | _ \<Rightarrow> False)"
| "conforms (SStruct fs) n = (case n of NMap kvs \<Rightarrow> conforms_fields fs kvs | _ \<Rightarrow> False)"
| "conforms (STuple fs) n = (case n of NList ns \<Rightarrow> conforms_tuple fs ns | _ \<Rightarrow> False)"
| "conforms_fields [] kvs = (kvs = [])"
| "conforms_fields ((name, s) # fs) [] = False"
| "conforms_fields ((name, s) # fs) ((k, v) # kvs) =
     (k = name \<and> conforms s v \<and> conforms_fields fs kvs)"
| "conforms_tuple [] ns = (ns = [])"
| "conforms_tuple ((name, s) # fs) [] = False"
| "conforms_tuple ((name, s) # fs) (v # ns) = (conforms s v \<and> conforms_tuple fs ns)"
| "conforms_all s [] = True"
| "conforms_all s (v # ns) = (conforms s v \<and> conforms_all s ns)"

text \<open>
  Modelled from the spec: \<^verbatim>\<open>shared.TypeFromNode\<close> is not among the sources. The spec has
  decoding from an untyped node validate the node against the expected shape and fail
  with a descriptive error on a null payload, a wrong field count and wrong field types.
  \<open>validate\<close> walks the node along the schema and returns the first such error, named by
  the field it is found in; \<open>TypeFromNode\<close> returns that error, or else the value that
  \<open>build\<close> makes of the node (how a well-shaped node becomes a value is a parameter).
\<close>

fun validate :: "Schema \<Rightarrow> Node \<Rightarrow> error option"
  and validate_fields :: "(string \<times> Schema) list \<Rightarrow> (string \<times> Node) list \<Rightarrow> error option"
  and validate_tuple :: "(string \<times> Schema) list \<Rightarrow> Node list \<Rightarrow> error option"
  and validate_all :: "Schema \<Rightarrow> Node list \<Rightarrow> error option" where
  "validate SInt n = (case n of NInt i \<Rightarrow> None | _ \<Rightarrow> Some (New ''expected an Int''))"
| "validate SBytes n = (case n of NBytes b \<Rightarrow> None | _ \<Rightarrow> Some (New ''expected Bytes''))"
| "validate SString n = (case n of NString s \<Rightarrow> None | _ \<Rightarrow> Some (New ''expected a String''))"
| "validate SLink n = (case n of NLink c \<Rightarrow> None | _ \<Rightarrow> Some (New ''expected a Link''))"
| "validate SAny n = (if n = NNull then Some (New ''unexpected null'') else None)"
| "validate (SNullable s) n = (if n = NNull then None else validate s n)"
| "validate (SList s) n =
     (case n of NList ns \<Rightarrow> validate_all s ns | _ \<Rightarrow> Some (New ''expected a list''))"
| "validate (SStruct fs) n =
     (case n of
        NMap kvs \<Rightarrow>
          (if length kvs \<noteq> length fs then Some (New ''wrong field count'')
           else validate_fields fs kvs)
      | _ \<Rightarrow> Some (New ''expected a map''))"
| "validate (STuple fs) n =
     (case n of
        NList ns \<Rightarrow>
          (if length ns \<noteq> length fs then Some (New ''wrong field count'')
           else validate_tuple fs ns)
      | _ \<Rightarrow> Some (New ''expected a list''))"
| "validate_fields [] kvs = (if kvs = [] then None else Some (New ''wrong field count''))"
| "validate_fields ((name, s) # fs) [] = Some (New ''wrong field count'')"
| "validate_fields ((name, s) # fs) ((k, v) # kvs) =
     (if k \<noteq> name then Some (Wrapped name (New ''field expected''))
      else (case validate s v of
              Some err \<Rightarrow> Some (Wrapped name err)
            | None \<Rightarrow> validate_fields fs kvs))"
| "validate_tuple [] ns = (if ns = [] then None else Some (New ''wrong field count''))"
| "validate_tuple ((name, s) # fs) [] = Some (New ''wrong field count'')"
| "validate_tuple ((name, s) # fs) (v # ns) =
     (case validate s v of
        Some err \<Rightarrow> Some (Wrapped name err)
      | None \<Rightarrow> validate_tuple fs ns)"
| "validate_all s [] = None"
| "validate_all s (v # ns) =
     (case validate s v of Some err \<Rightarrow> Some err | None \<Rightarrow> validate_all s ns)"

definition TypeFromNode :: "(Prototype \<Rightarrow> Node \<Rightarrow> Iface) \<Rightarrow> TypeFromNode" where
  "TypeFromNode build node ptrValue =
     (case validate (BindnodeSchema ptrValue) node of
        Some err \<Rightarrow> Inl err
      | None \<Rightarrow> Inr (build ptrValue node))"

section \<open>Fetching an unsealed piece\<close>

text \<open>
  The piece store and the provider node are collaborators behind interfaces. Their calls
  have effects, so each takes the state of the outside world \<open>'w\<close> and returns the new one
  with its answer. The context argument is only passed on and is left out.
\<close>

type_synonym ReadCloser = "8 word list"

record 'w PieceStore =
  GetPieceInfo :: "Cid \<Rightarrow> 'w \<Rightarrow> (error + PieceInfo) \<times> 'w"

record 'w RetrievalProviderNode =
  IsUnsealed :: "64 word \<Rightarrow> 64 word \<Rightarrow> 64 word \<Rightarrow> 'w \<Rightarrow> (error + bool) \<times> 'w"
  UnsealSector :: "64 word \<Rightarrow> 64 word \<Rightarrow> 64 word \<Rightarrow> 'w \<Rightarrow> (error + ReadCloser) \<times> 'w"

record 'w lotusMountApiImpl =
  pieceStore :: "'w PieceStore"
  rm :: "'w RetrievalProviderNode"

text \<open>The two calls as \<^verbatim>\<open>FetchUnsealedPiece\<close> makes them for a deal.\<close>

definition isUnsealed_of :: "'w RetrievalProviderNode \<Rightarrow> DealInfo \<Rightarrow> 'w \<Rightarrow> (error + bool) \<times> 'w" where
  "isUnsealed_of r deal = IsUnsealed r (SectorID deal) (Unpadded (Offset deal)) (Unpadded (Length deal))"

definition unsealSector_of ::
  "'w RetrievalProviderNode \<Rightarrow> DealInfo \<Rightarrow> 'w \<Rightarrow> (error + ReadCloser) \<times> 'w" where
  "unsealSector_of r deal =
     UnsealSector r (SectorID deal) (Unpadded (Offset deal)) (Unpadded (Length deal))"

text \<open>
  The first loop, "prefer an unsealed sector containing the piece if one exists":
  an error of \<^verbatim>\<open>IsUnsealed\<close> is \<^verbatim>\<open>continue\<close>; a reader is returned at once; after a
  failed \<^verbatim>\<open>UnsealSector\<close> the loop goes on. \<open>None\<close>: the loop ended without a reader.
\<close>

fun prefer_unsealed ::
  "'w RetrievalProviderNode \<Rightarrow> DealInfo list \<Rightarrow> 'w \<Rightarrow> ReadCloser option \<times> 'w" where
  "prefer_unsealed r [] w = (None, w)"
| "prefer_unsealed r (deal # deals) w =
     (case isUnsealed_of r deal w of
        (Inl err, w1) \<Rightarrow> prefer_unsealed r deals w1
      | (Inr isUnsealed, w1) \<Rightarrow>
          (if isUnsealed
           then (case unsealSector_of r deal w1 of
                   (Inr reader, w2) \<Rightarrow> (Some reader, w2)
                 | (Inl err, w2) \<Rightarrow> prefer_unsealed r deals w2)
           else prefer_unsealed r deals w1))"

text \<open>
  The second loop, "read the piece from the first sector we are able to unseal", with the
  variable \<^verbatim>\<open>lastErr\<close> as an argument.
\<close>

fun unseal_first ::
  "'w RetrievalProviderNode \<Rightarrow> DealInfo list \<Rightarrow> error \<Rightarrow> 'w \<Rightarrow> (error + ReadCloser) \<times> 'w" where
  "unseal_first r [] lastErr w = (Inl lastErr, w)"
| "unseal_first r (deal # deals) lastErr w =
     (case unsealSector_of r deal w of
        (Inr reader, w1) \<Rightarrow> (Inr reader, w1)
      | (Inl err, w1) \<Rightarrow> unseal_first r deals err w1)"

definition FetchUnsealedPiece ::
  "'w lotusMountApiImpl \<Rightarrow> Cid \<Rightarrow> 'w \<Rightarrow> (error + ReadCloser) \<times> 'w" where
  "FetchUnsealedPiece m pieceCid w =
     (case GetPieceInfo (pieceStore m) pieceCid w of
        (Inl err, w0) \<Rightarrow> (Inl (Wrapped ''failed to fetch pieceInfo'' err), w0)
      | (Inr pieceInfo, w0) \<Rightarrow>
          (if length (Deals pieceInfo) \<le> 0 then (Inl (New ''no storage deals for Piece''), w0)
           else
             (case prefer_unsealed (rm m) (Deals pieceInfo) w0 of
                (Some reader, w1) \<Rightarrow> (Inr reader, w1)
              | (None, w1) \<Rightarrow>
                  unseal_first (rm m) (Deals pieceInfo)
                    (New ''no sectors found to unseal from'') w1)))"

section \<open>Example collaborators\<close>

text \<open>
  A provider node that answers from two tables and appends every call it receives to a
  log, which is the state of the world; a piece with three locations; a mount over such a
  node; an availability table where only the third location is already unsealed and the
  check on the second fails.
\<close>

datatype call = AskedIsUnsealed "64 word" | AskedUnsealSector "64 word"

definition logging_node ::
  "(64 word \<Rightarrow> error + bool) \<Rightarrow> (64 word \<Rightarrow> error + ReadCloser)
     \<Rightarrow> call list RetrievalProviderNode" where
  "logging_node available unseal =
     \<lparr>IsUnsealed = (\<lambda>sector offset len log. (available sector, log @ [AskedIsUnsealed sector])),
      UnsealSector = (\<lambda>sector offset len log. (unseal sector, log @ [AskedUnsealSector sector]))\<rparr>"

definition deal_in :: "64 word \<Rightarrow> DealInfo" where
  "deal_in sector = \<lparr>DealID = sector, SectorID = sector, Offset = 0, Length = 128\<rparr>"

definition three_locations :: PieceInfo where
  "three_locations = \<lparr>PieceInfo.PieceCID = [], Deals = [deal_in 1, deal_in 2, deal_in 3]\<rparr>"

definition logging_mount ::
  "PieceInfo \<Rightarrow> (64 word \<Rightarrow> error + bool) \<Rightarrow> (64 word \<Rightarrow> error + ReadCloser)
     \<Rightarrow> call list lotusMountApiImpl" where
  "logging_mount info available unseal =
     \<lparr>pieceStore = \<lparr>GetPieceInfo = (\<lambda>pieceCid log. (Inr info, log))\<rparr>,
      rm = logging_node available unseal\<rparr>"

text \<open>
  For such a node, in the words of the specification: a location is ready when the
  availability check answers yes, and it opens when unsealing it yields a reader.
\<close>

definition ready :: "(64 word \<Rightarrow> error + bool) \<Rightarrow> DealInfo \<Rightarrow> bool" where
  "ready available deal = (available (SectorID deal) = Inr True)"

definition opens :: "(64 word \<Rightarrow> error + ReadCloser) \<Rightarrow> DealInfo \<Rightarrow> bool" where
  "opens unseal deal = (\<not> isl (unseal (SectorID deal)))"

definition third_available :: "64 word \<Rightarrow> error + bool" where
  "third_available sector =
     (if sector = 3 then Inr True
      else if sector = 2 then Inl (New ''sector index unavailable'')
      else Inr False)"

definition unseal_all :: "64 word \<Rightarrow> error + ReadCloser" where
  "unseal_all sector = Inr [ucast sector]"

definition unseal_only_second :: "64 word \<Rightarrow> error + ReadCloser" where
  "unseal_only_second sector =
     (if sector = 2 then Inr [2] else Inl (Wrapped ''unseal failed'' (New (if sector = 1 then ''one'' else ''other''))))"

definition unseal_none :: "64 word \<Rightarrow> error + ReadCloser" where
  "unseal_none sector =
     Inl (Wrapped ''unseal failed'' (New (if sector = 3 then ''three'' else ''other'')))"

text \<open>
  Three payloads for a deal response (well-shaped, one field short, one field of the
  wrong type), a builder of blank values, and one assignment of status codes.
\<close>

definition good_response :: Node where
  "good_response = NMap [(''Status'', NInt 6), (''ID'', NInt 1),
     (''PaymentOwed'', NBytes [0, 100]), (''Message'', NString ''ok'')]"

definition short_response :: Node where
  "short_response = NMap [(''Status'', NInt 6), (''ID'', NInt 1), (''PaymentOwed'', NBytes [])]"

definition mistyped_response :: Node where
  "mistyped_response = NMap [(''Status'', NString ''accepted''), (''ID'', NInt 1),
     (''PaymentOwed'', NBytes []), (''Message'', NString ''ok'')]"

definition blank_build :: "Prototype \<Rightarrow> Node \<Rightarrow> Iface" where
  "blank_build ptrValue node =
     (case ptrValue of
        DealProposalPtr \<Rightarrow> IsDealProposal \<lparr>PayloadCID = [], DealProposal.ID = 0, Params = Params_zero\<rparr>
      | DealResponsePtr \<Rightarrow> IsDealResponse \<lparr>Status = 0, DealResponse.ID = 0, PaymentOwed = None, Message = []\<rparr>
      | DealPaymentPtr \<Rightarrow> IsDealPayment \<lparr>DealPayment.ID = 0, PaymentChannel = [], PaymentVoucher = None\<rparr>)"

definition example_codes :: DealStatusCodes where
  "example_codes = \<lparr>DealStatusDealNotFound = 16, DealStatusFailing = 8,
     DealStatusRejected = 9, DealStatusCompleted = 15\<rparr>"

section \<open>The interval loops and the payment boundaries\<close>

lemma wboundary_0: "wboundary p 0 = 0"
  by (simp add: wboundary_def)

lemma wboundary_Suc: "wboundary p (Suc k) = wboundary p k + isize p k"
  by (simp add: wboundary_def isize_def)

lemma isize_0: "isize p 0 = PaymentInterval p"
  by (simp add: isize_def)

lemma isize_Suc: "isize p (Suc k) = isize p k + PaymentIntervalIncrease p"
  by (simp add: isize_def algebra_simps)

lemma nextInterval_loop_skip:
  "(\<forall>j<n. wboundary p j \<le> c) \<Longrightarrow>
   nextInterval p c = nextInterval_loop (PaymentIntervalIncrease p) c (isize p n) (wboundary p n)"
proof (induction n)
  case 0
  show ?case by (simp add: nextInterval_def wboundary_0 isize_0)
next
  case (Suc n)
  then have le: "wboundary p n \<le> c" and eq: "nextInterval p c =
      nextInterval_loop (PaymentIntervalIncrease p) c (isize p n) (wboundary p n)"
    by simp_all
  show ?case
    by (subst eq, subst nextInterval_loop.simps) (simp add: le wboundary_Suc isize_Suc)
qed

lemma nextInterval_exit:
  assumes "\<forall>j<n. wboundary p j \<le> c" and "c < wboundary p n"
  shows "nextInterval p c = Some (wboundary p n)"
proof -
  have "\<not> wboundary p n \<le> c" using assms(2) by simp
  then show ?thesis
    by (subst nextInterval_loop_skip [OF assms(1)], subst nextInterval_loop.simps) simp
qed

lemma nextInterval_loop_Some:
  "nextInterval_loop inc c sz nx = Some y \<Longrightarrow>
   (\<forall>k. inc = PaymentIntervalIncrease p \<and> sz = isize p k \<and> nx = wboundary p k
      \<longrightarrow> (\<exists>m. c < wboundary p m))"
proof (erule nextInterval_loop.raw_induct [rotated], intro allI impI, elim conjE)
  fix rec :: "64 word \<Rightarrow> 64 word \<Rightarrow> 64 word \<Rightarrow> 64 word \<Rightarrow> 64 word option"
  fix inc' c' sz' nx' y' k
  assume IH: "\<And>a b s n r. rec a b s n = Some r \<Longrightarrow>
      \<forall>k. a = PaymentIntervalIncrease p \<and> s = isize p k \<and> n = wboundary p k
        \<longrightarrow> (\<exists>m. b < wboundary p m)"
  assume step: "(if nx' \<le> c' then rec inc' c' (sz' + inc') (nx' + sz') else Some nx') = Some y'"
  assume st: "inc' = PaymentIntervalIncrease p" "sz' = isize p k" "nx' = wboundary p k"
  show "\<exists>m. c' < wboundary p m"
  proof (cases "nx' \<le> c'")
    case True
    with step have "rec inc' c' (sz' + inc') (nx' + sz') = Some y'" by simp
    from IH [OF this] have "inc' = PaymentIntervalIncrease p \<and> sz' + inc' = isize p (Suc k)
        \<and> nx' + sz' = wboundary p (Suc k) \<longrightarrow> (\<exists>m. c' < wboundary p m)"
      by blast
    then show ?thesis by (simp add: st isize_Suc wboundary_Suc)
  next
    case False
    then have "c' < wboundary p k" using st by simp
    then show ?thesis ..
  qed
qed

lemma nextInterval_None:
  "(\<forall>k. wboundary p k \<le> c) \<Longrightarrow> nextInterval p c = None"
proof (rule ccontr)
  assume all: "\<forall>k. wboundary p k \<le> c" and "nextInterval p c \<noteq> None"
  then obtain y where "nextInterval p c = Some y" by auto
  then have "\<exists>m. c < wboundary p m"
    unfolding nextInterval_def
    using nextInterval_loop_Some [of _ c _ _ y p] by (metis isize_0 wboundary_0)
  with all show False by (auto simp: not_le [symmetric])
qed

lemma IntervalLowerBound_loop_skip:
  "(\<forall>j<n. wboundary p j \<le> c) \<Longrightarrow>
   IntervalLowerBound p c =
     IntervalLowerBound_loop (PaymentIntervalIncrease p) c (isize p n)
       (wboundary p (n - 1)) (wboundary p n)"
proof (induction n)
  case 0
  show ?case by (simp add: IntervalLowerBound_def wboundary_0 isize_0)
next
  case (Suc n)
  then have le: "wboundary p n \<le> c" and eq: "IntervalLowerBound p c =
      IntervalLowerBound_loop (PaymentIntervalIncrease p) c (isize p n)
        (wboundary p (n - 1)) (wboundary p n)"
    by simp_all
  show ?case
    by (subst eq, subst IntervalLowerBound_loop.simps) (simp add: le wboundary_Suc isize_Suc)
qed

lemma IntervalLowerBound_exit:
  assumes "\<forall>j<n. wboundary p j \<le> c" and "c < wboundary p n"
  shows "IntervalLowerBound p c = Some (wboundary p (n - 1))"
proof -
  have "\<not> wboundary p n \<le> c" using assms(2) by simp
  then show ?thesis
    by (subst IntervalLowerBound_loop_skip [OF assms(1)], subst IntervalLowerBound_loop.simps) simp
qed

lemma IntervalLowerBound_loop_Some:
  "IntervalLowerBound_loop inc c sz lb tg = Some y \<Longrightarrow>
   (\<forall>k. inc = PaymentIntervalIncrease p \<and> sz = isize p k \<and> tg = wboundary p k
      \<longrightarrow> (\<exists>m. c < wboundary p m))"
proof (erule IntervalLowerBound_loop.raw_induct [rotated], intro allI impI, elim conjE)
  fix rec :: "64 word \<Rightarrow> 64 word \<Rightarrow> 64 word \<Rightarrow> 64 word \<Rightarrow> 64 word \<Rightarrow> 64 word option"
  fix inc' c' sz' lb' tg' y' k
  assume IH: "\<And>a b s l t r. rec a b s l t = Some r \<Longrightarrow>
      \<forall>k. a = PaymentIntervalIncrease p \<and> s = isize p k \<and> t = wboundary p k
        \<longrightarrow> (\<exists>m. b < wboundary p m)"
  assume step: "(if tg' \<le> c' then rec inc' c' (sz' + inc') tg' (tg' + sz') else Some lb') = Some y'"
  assume st: "inc' = PaymentIntervalIncrease p" "sz' = isize p k" "tg' = wboundary p k"
  show "\<exists>m. c' < wboundary p m"
  proof (cases "tg' \<le> c'")
    case True
    with step have "rec inc' c' (sz' + inc') tg' (tg' + sz') = Some y'" by simp
    from IH [OF this] have "inc' = PaymentIntervalIncrease p \<and> sz' + inc' = isize p (Suc k)
        \<and> tg' + sz' = wboundary p (Suc k) \<longrightarrow> (\<exists>m. c' < wboundary p m)"
      by blast
    then show ?thesis by (simp add: st isize_Suc wboundary_Suc)
  next
    case False
    then have "c' < wboundary p k" using st by simp
    then show ?thesis ..
  qed
qed

lemma IntervalLowerBound_None:
  "(\<forall>k. wboundary p k \<le> c) \<Longrightarrow> IntervalLowerBound p c = None"
proof (rule ccontr)
  assume all: "\<forall>k. wboundary p k \<le> c" and "IntervalLowerBound p c \<noteq> None"
  then obtain y where "IntervalLowerBound p c = Some y" by auto
  then have "\<exists>m. c < wboundary p m"
    unfolding IntervalLowerBound_def
    using IntervalLowerBound_loop_Some [of _ c _ _ _ y p] by (metis isize_0 wboundary_0)
  with all show False by (auto simp: not_le [symmetric])
qed

lemma first_exceeding:
  assumes "\<exists>k. c < wboundary p k"
  shows "\<exists>n. c < wboundary p n \<and> (\<forall>j<n. wboundary p j \<le> c)"
proof -
  define n where "n = (LEAST k. c < wboundary p k)"
  have "c < wboundary p n" unfolding n_def using assms by (auto intro: LeastI)
  moreover have "\<forall>j<n. wboundary p j \<le> c"
    unfolding n_def using not_less_Least [of _ "\<lambda>k. c < wboundary p k"] by (auto simp: not_less)
  ultimately show ?thesis by blast
qed

lemma nextInterval_returns_iff:
  "nextInterval p c \<noteq> None \<longleftrightarrow> (\<exists>k. c < wboundary p k)"
proof
  assume ret: "nextInterval p c \<noteq> None"
  have "\<not> (\<forall>k. wboundary p k \<le> c)"
  proof
    assume "\<forall>k. wboundary p k \<le> c"
    then have "nextInterval p c = None" by (rule nextInterval_None)
    with ret show False by simp
  qed
  then show "\<exists>k. c < wboundary p k" by (simp add: not_le)
next
  assume "\<exists>k. c < wboundary p k"
  from first_exceeding [OF this] obtain n where "c < wboundary p n" "\<forall>j<n. wboundary p j \<le> c"
    by blast
  then show "nextInterval p c \<noteq> None" by (simp add: nextInterval_exit)
qed

lemma IntervalLowerBound_returns_iff:
  "IntervalLowerBound p c \<noteq> None \<longleftrightarrow> (\<exists>k. c < wboundary p k)"
proof
  assume ret: "IntervalLowerBound p c \<noteq> None"
  have "\<not> (\<forall>k. wboundary p k \<le> c)"
  proof
    assume "\<forall>k. wboundary p k \<le> c"
    then have "IntervalLowerBound p c = None" by (rule IntervalLowerBound_None)
    with ret show False by simp
  qed
  then show "\<exists>k. c < wboundary p k" by (simp add: not_le)
next
  assume "\<exists>k. c < wboundary p k"
  from first_exceeding [OF this] obtain n where "c < wboundary p n" "\<forall>j<n. wboundary p j \<le> c"
    by blast
  then show "IntervalLowerBound p c \<noteq> None" by (simp add: IntervalLowerBound_exit)
qed

lemma boundary_mono: "k \<le> k' \<Longrightarrow> boundary a d k \<le> boundary a d k'"
  by (induction k') (auto simp: le_Suc_eq)

lemma unat_wboundary:
  "boundary (unat (PaymentInterval p)) (unat (PaymentIntervalIncrease p)) k < 2 ^ 64 \<Longrightarrow>
   unat (wboundary p k) = boundary (unat (PaymentInterval p)) (unat (PaymentIntervalIncrease p)) k"
  by (simp add: wboundary_def unat_of_nat)

lemma boundary_zero: "boundary 0 0 k = 0"
  by (induction k) simp_all

text \<open>With no overflow up to the first boundary above \<open>c\<close>, the loops see the true boundaries.\<close>

lemma first_exceeding_exact:
  fixes p c
  defines "B \<equiv> boundary (unat (PaymentInterval p)) (unat (PaymentIntervalIncrease p))"
  assumes above: "unat c < B k" and fits: "B k < 2 ^ 64"
  shows "\<exists>n\<le>k. unat c < B n \<and> (\<forall>j<n. B j \<le> unat c) \<and> (\<forall>j\<le>n. unat (wboundary p j) = B j)
           \<and> c < wboundary p n \<and> (\<forall>j<n. wboundary p j \<le> c)"
proof -
  define n where "n = (LEAST i. unat c < B i)"
  have n1: "unat c < B n" unfolding n_def using above by (rule LeastI)
  have n2: "n \<le> k" unfolding n_def using above by (rule Least_le)
  have n3: "\<forall>j<n. B j \<le> unat c"
    unfolding n_def using not_less_Least [of _ "\<lambda>i. unat c < B i"] by (auto simp: not_less)
  have "B n \<le> B k" unfolding B_def using n2 by (rule boundary_mono)
  then have fit_n: "B n < 2 ^ 64" using fits by simp
  have ex: "\<forall>j\<le>n. unat (wboundary p j) = B j"
  proof (intro allI impI)
    fix j assume "j \<le> n"
    then have "B j \<le> B n" unfolding B_def by (rule boundary_mono)
    then have "B j < 2 ^ 64" using fit_n by simp
    then show "unat (wboundary p j) = B j" unfolding B_def by (rule unat_wboundary)
  qed
  have "c < wboundary p n" using n1 ex by (simp add: word_less_nat_alt)
  moreover have "\<forall>j<n. wboundary p j \<le> c" using n3 ex by (simp add: word_le_nat_alt)
  ultimately show ?thesis using n1 n2 n3 ex by blast
qed

lemma boundary_ge_interval: "k * a \<le> boundary a d k"
  by (induction k) simp_all

lemma boundary_ge_increase: "k * d \<le> boundary a d (Suc k)"
  by simp

lemma boundary_unbounded:
  assumes "0 < a \<or> 0 < d"
  shows "\<exists>k. c < boundary a d k"
proof (cases "0 < a")
  case True
  have "Suc c \<le> Suc c * a" using True by (cases a) simp_all
  also have "Suc c * a \<le> boundary a d (Suc c)" by (rule boundary_ge_interval)
  finally have "c < boundary a d (Suc c)" by (rule Suc_le_lessD)
  then show ?thesis ..
next
  case False
  then have "0 < d" using assms by simp
  then have "Suc c \<le> Suc c * d" by (cases d) simp_all
  also have "Suc c * d \<le> boundary a d (Suc (Suc c))" by (rule boundary_ge_increase)
  finally have "c < boundary a d (Suc (Suc c))" by (rule Suc_le_lessD)
  then show ?thesis ..
qed

lemma wboundary_zero:
  "PaymentInterval p = 0 \<Longrightarrow> PaymentIntervalIncrease p = 0 \<Longrightarrow> wboundary p k = 0"
  by (simp add: wboundary_def boundary_zero)

lemma nextInterval_SomeD:
  assumes "nextInterval p c = Some y"
  shows "\<exists>n. y = wboundary p n \<and> c < wboundary p n \<and> (\<forall>j<n. wboundary p j \<le> c)"
proof -
  have "\<exists>k. c < wboundary p k" using assms nextInterval_returns_iff [of p c] by simp
  from first_exceeding [OF this] obtain n where n: "c < wboundary p n" "\<forall>j<n. wboundary p j \<le> c"
    by blast
  then have "nextInterval p c = Some (wboundary p n)" by (simp add: nextInterval_exit)
  with assms n show ?thesis by auto
qed

lemma IntervalLowerBound_SomeD:
  assumes "IntervalLowerBound p c = Some y"
  shows "\<exists>n. y = wboundary p (n - 1) \<and> c < wboundary p n \<and> (\<forall>j<n. wboundary p j \<le> c)"
proof -
  have "\<exists>k. c < wboundary p k" using assms IntervalLowerBound_returns_iff [of p c] by simp
  from first_exceeding [OF this] obtain n where n: "c < wboundary p n" "\<forall>j<n. wboundary p j \<le> c"
    by blast
  then have "IntervalLowerBound p c = Some (wboundary p (n - 1))"
    by (simp add: IntervalLowerBound_exit)
  with assms n show ?thesis by auto
qed

lemma nextInterval_greater: "nextInterval p x = Some nx \<Longrightarrow> x < nx"
  using nextInterval_SomeD by blast

lemma IntervalLowerBound_le: "IntervalLowerBound p x = Some lx \<Longrightarrow> lx \<le> x"
proof -
  assume "IntervalLowerBound p x = Some lx"
  from IntervalLowerBound_SomeD [OF this] obtain n where
    n: "lx = wboundary p (n - 1)" "x < wboundary p n" "\<forall>j<n. wboundary p j \<le> x" by blast
  show "lx \<le> x"
  proof (cases n)
    case 0
    then show ?thesis using n by (simp add: wboundary_0)
  next
    case (Suc m)
    then show ?thesis using n by simp
  qed
qed

text \<open>
  Claim C9, as amended. Each loop returns exactly when some boundary, as the loop computes it
  on \<^verbatim>\<open>uint64\<close>, is greater than \<open>currentInterval\<close>. With both the interval and its
  increase zero no boundary ever is, and neither loop returns on any input. With one of
  them positive the boundaries without overflow grow past every \<open>currentInterval\<close>, and
  both loops return whenever one of those boundaries lies above \<open>currentInterval\<close> and
  below \<open>2 ^ 64\<close>.
\<close>

theorem interval_loops_terminate_iff:
  "(IntervalLowerBound p c \<noteq> None \<longleftrightarrow> (\<exists>k. c < wboundary p k))
   \<and> (nextInterval p c \<noteq> None \<longleftrightarrow> (\<exists>k. c < wboundary p k))
   \<and> (PaymentInterval p = 0 \<and> PaymentIntervalIncrease p = 0 \<longrightarrow>
        IntervalLowerBound p c = None \<and> nextInterval p c = None)
   \<and> (0 < PaymentInterval p \<or> 0 < PaymentIntervalIncrease p \<longrightarrow>
        (\<exists>k. unat c < boundary (unat (PaymentInterval p)) (unat (PaymentIntervalIncrease p)) k))
   \<and> ((\<exists>k. unat c < boundary (unat (PaymentInterval p)) (unat (PaymentIntervalIncrease p)) k
           \<and> boundary (unat (PaymentInterval p)) (unat (PaymentIntervalIncrease p)) k < 2 ^ 64) \<longrightarrow>
        IntervalLowerBound p c \<noteq> None \<and> nextInterval p c \<noteq> None)"
proof (intro conjI impI)
  show "IntervalLowerBound p c \<noteq> None \<longleftrightarrow> (\<exists>k. c < wboundary p k)"
    by (rule IntervalLowerBound_returns_iff)
  show "nextInterval p c \<noteq> None \<longleftrightarrow> (\<exists>k. c < wboundary p k)"
    by (rule nextInterval_returns_iff)
next
  assume z: "PaymentInterval p = 0 \<and> PaymentIntervalIncrease p = 0"
  then have all: "\<forall>k. wboundary p k \<le> c" by (simp add: wboundary_zero)
  from all show "IntervalLowerBound p c = None" by (rule IntervalLowerBound_None)
  from all show "nextInterval p c = None" by (rule nextInterval_None)
next
  assume "0 < PaymentInterval p \<or> 0 < PaymentIntervalIncrease p"
  then have "0 < unat (PaymentInterval p) \<or> 0 < unat (PaymentIntervalIncrease p)"
    by (simp add: unat_gt_0 word_neq_0_conv)
  then show "\<exists>k. unat c < boundary (unat (PaymentInterval p)) (unat (PaymentIntervalIncrease p)) k"
    by (rule boundary_unbounded)
next
  assume "\<exists>k. unat c < boundary (unat (PaymentInterval p)) (unat (PaymentIntervalIncrease p)) k
           \<and> boundary (unat (PaymentInterval p)) (unat (PaymentIntervalIncrease p)) k < 2 ^ 64"
  then obtain k where
    "unat c < boundary (unat (PaymentInterval p)) (unat (PaymentIntervalIncrease p)) k"
    "boundary (unat (PaymentInterval p)) (unat (PaymentIntervalIncrease p)) k < 2 ^ 64" by blast
  from first_exceeding_exact [OF this] have ex: "\<exists>n. c < wboundary p n" by blast
  from ex show "IntervalLowerBound p c \<noteq> None" by (rule IntervalLowerBound_returns_iff [THEN iffD2])
  from ex show "nextInterval p c \<noteq> None" by (rule nextInterval_returns_iff [THEN iffD2])
qed

lemma interval_bounds_exact:
  assumes xy: "x \<le> y"
    and above: "unat y < boundary (unat (PaymentInterval p)) (unat (PaymentIntervalIncrease p)) k"
    and fits: "boundary (unat (PaymentInterval p)) (unat (PaymentIntervalIncrease p)) k < 2 ^ 64"
  shows "\<exists>lx ly nx ny.
           IntervalLowerBound p x = Some lx \<and> IntervalLowerBound p y = Some ly
         \<and> nextInterval p x = Some nx \<and> nextInterval p y = Some ny
         \<and> lx \<le> ly \<and> nx \<le> ny \<and> x < nx \<and> y < ny"
proof -
  let ?B = "boundary (unat (PaymentInterval p)) (unat (PaymentIntervalIncrease p))"
  from first_exceeding_exact [OF above fits] obtain n where
    n: "n \<le> k" "unat y < ?B n" "\<forall>j<n. ?B j \<le> unat y" "\<forall>j\<le>n. unat (wboundary p j) = ?B j"
       "y < wboundary p n" "\<forall>j<n. wboundary p j \<le> y" by blast
  have xu: "unat x \<le> unat y" using xy by (simp add: word_le_nat_alt)
  then have above_x: "unat x < ?B n" using n(2) by simp
  have fits_n: "?B n < 2 ^ 64" using boundary_mono [OF n(1)] fits by (rule le_less_trans)
  from first_exceeding_exact [OF above_x fits_n] obtain m where
    m: "m \<le> n" "unat x < ?B m" "\<forall>j<m. ?B j \<le> unat x"
       "x < wboundary p m" "\<forall>j<m. wboundary p j \<le> x" by blast
  have ly: "IntervalLowerBound p y = Some (wboundary p (n - 1))"
    using n(6) n(5) by (rule IntervalLowerBound_exit)
  have ny: "nextInterval p y = Some (wboundary p n)"
    using n(6) n(5) by (rule nextInterval_exit)
  have lx: "IntervalLowerBound p x = Some (wboundary p (m - 1))"
    using m(5) m(4) by (rule IntervalLowerBound_exit)
  have nx: "nextInterval p x = Some (wboundary p m)"
    using m(5) m(4) by (rule nextInterval_exit)
  have "?B m \<le> ?B n" using m(1) by (rule boundary_mono)
  moreover have "unat (wboundary p m) = ?B m" "unat (wboundary p n) = ?B n"
    using n(4) m(1) by simp_all
  ultimately have le_n: "wboundary p m \<le> wboundary p n" by (simp add: word_le_nat_alt)
  have "m - 1 \<le> n - 1" using m(1) by simp
  then have "?B (m - 1) \<le> ?B (n - 1)" by (rule boundary_mono)
  moreover have "unat (wboundary p (m - 1)) = ?B (m - 1)" "unat (wboundary p (n - 1)) = ?B (n - 1)"
    using n(4) m(1) by simp_all
  ultimately have le_l: "wboundary p (m - 1) \<le> wboundary p (n - 1)" by (simp add: word_le_nat_alt)
  show ?thesis using lx ly nx ny le_l le_n m(4) n(5) by simp
qed

lemma nextInterval_monotone:
  assumes "nextInterval p x = Some nx" "nextInterval p y = Some ny" "x \<le> y"
  shows "nx \<le> ny"
proof -
  from nextInterval_SomeD [OF assms(1)] obtain m where
    m: "nx = wboundary p m" "x < wboundary p m" "\<forall>j<m. wboundary p j \<le> x" by blast
  from nextInterval_SomeD [OF assms(2)] obtain n where
    n: "ny = wboundary p n" "y < wboundary p n" "\<forall>j<n. wboundary p j \<le> y" by blast
  show ?thesis
  proof (cases "m < n")
    case True
    then have "wboundary p m \<le> y" using n(3) by simp
    then show ?thesis using m(1) n(1) n(2) by simp
  next
    case False
    have "\<not> n < m"
    proof
      assume "n < m"
      then have "wboundary p n \<le> x" using m(3) by simp
      then show False using n(2) assms(3) by simp
    qed
    with False have "m = n" by simp
    then show ?thesis using m(1) n(1) by simp
  qed
qed

text \<open>
  Claim C5, as amended. For parameters with a positive payment interval and \<open>x \<le> y\<close>:
  whenever \<^verbatim>\<open>nextInterval\<close> returns, it returns more than its argument, and its results on
  \<open>x\<close> and \<open>y\<close> are in order whenever both calls return. If a boundary computed without
  overflow lies above \<open>y\<close> and below \<open>2 ^ 64\<close>, then \<^verbatim>\<open>IntervalLowerBound\<close> and
  \<^verbatim>\<open>nextInterval\<close> return on \<open>x\<close> and on \<open>y\<close>, and the lower bounds are in order too.
\<close>

theorem interval_bounds_monotone:
  assumes pos: "0 < PaymentInterval p" and xy: "x \<le> y"
  shows "(nextInterval p x = Some nx \<longrightarrow> x < nx)
       \<and> (nextInterval p x = Some nx \<and> nextInterval p y = Some ny \<longrightarrow> nx \<le> ny)
       \<and> ((\<exists>k. unat y < boundary (unat (PaymentInterval p)) (unat (PaymentIntervalIncrease p)) k
               \<and> boundary (unat (PaymentInterval p)) (unat (PaymentIntervalIncrease p)) k < 2 ^ 64)
            \<longrightarrow> (\<exists>lx ly nx ny.
                   IntervalLowerBound p x = Some lx \<and> IntervalLowerBound p y = Some ly
                 \<and> nextInterval p x = Some nx \<and> nextInterval p y = Some ny
                 \<and> lx \<le> ly \<and> nx \<le> ny \<and> x < nx \<and> y < ny))"
proof (intro conjI impI)
  assume "nextInterval p x = Some nx"
  then show "x < nx" by (rule nextInterval_greater)
next
  assume "nextInterval p x = Some nx \<and> nextInterval p y = Some ny"
  then show "nx \<le> ny" using xy nextInterval_monotone [of p x nx y ny] by blast
next
  assume "\<exists>k. unat y < boundary (unat (PaymentInterval p)) (unat (PaymentIntervalIncrease p)) k
            \<and> boundary (unat (PaymentInterval p)) (unat (PaymentIntervalIncrease p)) k < 2 ^ 64"
  then obtain k where
    "unat y < boundary (unat (PaymentInterval p)) (unat (PaymentIntervalIncrease p)) k"
    "boundary (unat (PaymentInterval p)) (unat (PaymentIntervalIncrease p)) k < 2 ^ 64"
    by blast
  with xy show "\<exists>lx ly nx ny.
                   IntervalLowerBound p x = Some lx \<and> IntervalLowerBound p y = Some ly
                 \<and> nextInterval p x = Some nx \<and> nextInterval p y = Some ny
                 \<and> lx \<le> ly \<and> nx \<le> ny \<and> x < nx \<and> y < ny"
    by (rule interval_bounds_exact)
qed

lemma stalled_diverges:
  "IntervalLowerBound stalled_params c = None \<and> nextInterval stalled_params c = None"
proof -
  have "\<forall>k. wboundary stalled_params k \<le> c"
    by (simp add: wboundary_zero stalled_params_def)
  then show ?thesis by (simp add: IntervalLowerBound_None nextInterval_None)
qed

lemma example_boundary_2: "boundary 100 50 2 = 250"
  by (simp add: numeral_2_eq_2)

text \<open>
  With interval 1 and increase 0 every boundary is at most \<open>2 ^ 64 - 1\<close>: at that
  \<open>currentInterval\<close> neither loop returns, although the interval is positive.
\<close>

theorem interval_loops_terminate_iff_counterexample:
  "0 < PaymentInterval unit_params
   \<and> IntervalLowerBound unit_params (- 1) = None \<and> nextInterval unit_params (- 1) = None"
proof -
  have "\<forall>k. wboundary unit_params k \<le> - 1" by simp
  then show ?thesis
    by (simp add: IntervalLowerBound_None nextInterval_None unit_params_def)
qed

theorem interval_loops_terminate_iff_witness:
  "IntervalLowerBound example_params 150 \<noteq> None \<and> nextInterval example_params 150 \<noteq> None
   \<and> IntervalLowerBound stalled_params 150 = None \<and> nextInterval stalled_params 150 = None"
proof -
  have "unat (150 :: 64 word) < boundary (unat (PaymentInterval example_params))
          (unat (PaymentIntervalIncrease example_params)) 2
        \<and> boundary (unat (PaymentInterval example_params))
          (unat (PaymentIntervalIncrease example_params)) 2 < 2 ^ 64"
    by (simp add: example_params_def example_boundary_2)
  then have ex: "\<exists>k. unat (150 :: 64 word) < boundary (unat (PaymentInterval example_params))
          (unat (PaymentIntervalIncrease example_params)) k
        \<and> boundary (unat (PaymentInterval example_params))
          (unat (PaymentIntervalIncrease example_params)) k < 2 ^ 64" ..
  have z: "PaymentInterval stalled_params = 0 \<and> PaymentIntervalIncrease stalled_params = 0"
    by (simp add: stalled_params_def)
  show ?thesis
    using interval_loops_terminate_iff [of example_params 150] ex
      interval_loops_terminate_iff [of stalled_params 150] z
    by blast
qed

text \<open>
  With interval 100 and increase 12297829382473034314 the boundaries are 0, 100,
  12297829382473034514, then (wrapped) 10, then \<open>2 ^ 64 - 180\<close>. The lower bound of
  100 is 100, the lower bound of the larger 12297829382473034514 is 10.
\<close>

theorem interval_bounds_monotone_counterexample:
  "0 < PaymentInterval wrapping_params
   \<and> (100 :: 64 word) \<le> 12297829382473034514
   \<and> IntervalLowerBound wrapping_params 100 = Some 100
   \<and> IntervalLowerBound wrapping_params 12297829382473034514 = Some 10"
  by (simp add: IntervalLowerBound_def wrapping_params_def example_params_def
      IntervalLowerBound_loop.simps)

theorem interval_bounds_monotone_witness:
  "0 < PaymentInterval example_params \<and> (120 :: 64 word) \<le> 150
   \<and> (\<exists>lx ly nx ny.
           IntervalLowerBound example_params 120 = Some lx \<and> IntervalLowerBound example_params 150 = Some ly
         \<and> nextInterval example_params 120 = Some nx \<and> nextInterval example_params 150 = Some ny
         \<and> lx \<le> ly \<and> nx \<le> ny \<and> 120 < nx \<and> 150 < ny)"
proof -
  have a: "0 < PaymentInterval example_params" by (simp add: example_params_def)
  have b: "(120 :: 64 word) \<le> 150" by simp
  have "unat (150 :: 64 word) < boundary (unat (PaymentInterval example_params))
          (unat (PaymentIntervalIncrease example_params)) 2
      \<and> boundary (unat (PaymentInterval example_params))
          (unat (PaymentIntervalIncrease example_params)) 2 < 2 ^ 64"
    by (simp add: example_params_def example_boundary_2)
  then have c: "\<exists>k. unat (150 :: 64 word) < boundary (unat (PaymentInterval example_params))
          (unat (PaymentIntervalIncrease example_params)) k
      \<and> boundary (unat (PaymentInterval example_params))
          (unat (PaymentIntervalIncrease example_params)) k < 2 ^ 64" ..
  from interval_bounds_monotone [OF a b] c a b show ?thesis by blast
qed

section \<open>The outstanding balance\<close>

lemma sint_small:
  fixes m :: "64 word"
  assumes "unat m < 2 ^ 63"
  shows "sint m = uint m"
proof -
  have u: "uint m = int (unat m)" by simp
  have "int (unat m) < 2 ^ 63" using assms by (simp flip: of_nat_less_iff [where 'a = int])
  moreover have "- (2 ^ 63) \<le> int (unat m)" by (rule order_trans [of _ 0]) simp_all
  ultimately have "signed_take_bit 63 (int (unat m)) = int (unat m)"
    by (intro signed_take_bit_int_eq_self)
  then show ?thesis by (simp add: sint_uint)
qed

lemma OutstandingBalance_unseal_short:
  "UnsealPrice p = Some unseal \<Longrightarrow> funds < unseal \<Longrightarrow>
   OutstandingBalance p (Some funds) sent fin = Some (Inr (Some (unseal - funds)))"
  by (simp add: OutstandingBalance_def LessThan_def)

lemma OutstandingBalance_free:
  "UnsealPrice p = Some unseal \<Longrightarrow> unseal \<le> funds \<Longrightarrow> PricePerByte p = Some 0 \<Longrightarrow>
   OutstandingBalance p (Some funds) sent fin = Some (Inr (Some 0))"
  by (simp add: OutstandingBalance_def LessThan_def big_Zero_def big_NewInt_def)

lemma OutstandingBalance_priced:
  assumes "UnsealPrice p = Some unseal" "unseal \<le> funds" "PricePerByte p = Some price" "price \<noteq> 0"
    and "IntervalLowerBound p sent = Some lowerBound"
  shows "OutstandingBalance p (Some funds) sent fin =
     Some (Inr (Some (max 0 (sint (if fin then sent else lowerBound) * price - (funds - unseal)))))"
  using assms
  by (simp add: OutstandingBalance_def LessThan_def big_Zero_def big_NewInt_def max_def)

lemma OutstandingBalance_diverges:
  assumes "UnsealPrice p = Some unseal" "unseal \<le> funds" "PricePerByte p = Some price" "price \<noteq> 0"
    and "IntervalLowerBound p sent = None"
  shows "OutstandingBalance p (Some funds) sent fin = None"
  using assms
  by (simp add: OutstandingBalance_def LessThan_def big_Zero_def big_NewInt_def)

lemma OutstandingBalance_nil_price:
  assumes "UnsealPrice p = Some unseal" "unseal \<le> funds" "PricePerByte p = None"
  shows "OutstandingBalance p (Some funds) sent fin = Some (Inl NilPointerDereference)"
  using assms
  by (simp add: OutstandingBalance_def LessThan_def)

lemma OutstandingBalance_priced_small:
  assumes "UnsealPrice p = Some unseal" "unseal \<le> funds" "PricePerByte p = Some price" "price \<noteq> 0"
    and "IntervalLowerBound p sent = Some lowerBound"
    and "minimumBytesToPay = (if fin then sent else lowerBound)"
    and "unat minimumBytesToPay < 2 ^ 63"
  shows "OutstandingBalance p (Some funds) sent fin =
     Some (Inr (Some (max 0 (uint minimumBytesToPay * price - (funds - unseal)))))"
proof -
  have "sint minimumBytesToPay = uint minimumBytesToPay" using assms(7) by (rule sint_small)
  moreover have "OutstandingBalance p (Some funds) sent fin =
     Some (Inr (Some (max 0 (sint (if fin then sent else lowerBound) * price - (funds - unseal)))))"
    using assms(1-5) by (rule OutstandingBalance_priced)
  ultimately show ?thesis using assms(6) by simp
qed

text \<open>
  Claim C1, as amended. With a price per byte, an unseal price and funds that are not nil:
  the balance is \<open>unseal - funds\<close> when the funds are below the unseal price; it is 0
  when they cover it and the price per byte is zero; otherwise, when
  \<^verbatim>\<open>IntervalLowerBound(sent)\<close> returns \<open>lowerBound\<close> (it is called in both modes) and
  the bytes to pay for (\<open>sent\<close> in finalization, \<open>lowerBound\<close> outside it) are
  below \<open>2 ^ 63\<close>, it is the maximum of 0 and
  \<open>minimumBytesToPay * price - (funds - unseal)\<close>.
\<close>

theorem OutstandingBalance_cases:
  assumes "PricePerByte p = Some price" and "UnsealPrice p = Some unseal"
  shows "(funds < unseal \<longrightarrow>
            OutstandingBalance p (Some funds) sent fin = Some (Inr (Some (unseal - funds))))
       \<and> (unseal \<le> funds \<and> price = 0 \<longrightarrow>
            OutstandingBalance p (Some funds) sent fin = Some (Inr (Some 0)))
       \<and> (unseal \<le> funds \<and> price \<noteq> 0 \<and> IntervalLowerBound p sent = Some lowerBound
            \<and> minimumBytesToPay = (if fin then sent else lowerBound)
            \<and> unat minimumBytesToPay < 2 ^ 63 \<longrightarrow>
            OutstandingBalance p (Some funds) sent fin =
              Some (Inr (Some (max 0 (uint minimumBytesToPay * price - (funds - unseal))))))"
proof (intro conjI impI)
  assume "funds < unseal"
  with assms(2) show "OutstandingBalance p (Some funds) sent fin = Some (Inr (Some (unseal - funds)))"
    by (rule OutstandingBalance_unseal_short)
next
  assume "unseal \<le> funds \<and> price = 0"
  then show "OutstandingBalance p (Some funds) sent fin = Some (Inr (Some 0))"
    using assms by (simp add: OutstandingBalance_free)
next
  assume h: "unseal \<le> funds \<and> price \<noteq> 0 \<and> IntervalLowerBound p sent = Some lowerBound
            \<and> minimumBytesToPay = (if fin then sent else lowerBound)
            \<and> unat minimumBytesToPay < 2 ^ 63"
  then have "unseal \<le> funds" "price \<noteq> 0" "IntervalLowerBound p sent = Some lowerBound"
    "minimumBytesToPay = (if fin then sent else lowerBound)" "unat minimumBytesToPay < 2 ^ 63"
    by blast+
  with assms(2) assms(1)
  show "OutstandingBalance p (Some funds) sent fin =
              Some (Inr (Some (max 0 (uint minimumBytesToPay * price - (funds - unseal)))))"
    by (intro OutstandingBalance_priced_small [where lowerBound = lowerBound])
qed

lemma ex_lower_bound: "IntervalLowerBound example_params 150 = Some 100"
  by (simp add: IntervalLowerBound_def example_params_def IntervalLowerBound_loop.simps)

theorem OutstandingBalance_cases_witness:
  "OutstandingBalance example_params (Some 600) 150 False = Some (Inr (Some 400))
   \<and> OutstandingBalance example_params (Some 600) 150 True = Some (Inr (Some 900))
   \<and> OutstandingBalance (example_params\<lparr>UnsealPrice := Some 1000\<rparr>) (Some 600) 150 False = Some (Inr (Some 400))
   \<and> OutstandingBalance (example_params\<lparr>PricePerByte := Some 0\<rparr>) (Some 600) 150 False = Some (Inr (Some 0))"
proof -
  have a: "PricePerByte example_params = Some 10" "UnsealPrice example_params = Some 0"
    by (simp_all add: example_params_def)
  have 1: "OutstandingBalance example_params (Some 600) 150 False = Some (Inr (Some 400))"
    using OutstandingBalance_cases [OF a, where funds = 600 and sent = 150 and lowerBound = 100 and minimumBytesToPay = 100 and fin = False] ex_lower_bound by simp
  have 2: "OutstandingBalance example_params (Some 600) 150 True = Some (Inr (Some 900))"
    using OutstandingBalance_cases [OF a, where funds = 600 and sent = 150 and lowerBound = 100 and minimumBytesToPay = 150 and fin = True] ex_lower_bound by simp
  have 3: "OutstandingBalance (example_params\<lparr>UnsealPrice := Some 1000\<rparr>) (Some 600) 150 False = Some (Inr (Some 400))"
    using OutstandingBalance_cases [where p = "example_params\<lparr>UnsealPrice := Some 1000\<rparr>" and price = 10 and unseal = 1000 and funds = 600 and sent = 150 and fin = False]
    by (simp add: example_params_def)
  have 4: "OutstandingBalance (example_params\<lparr>PricePerByte := Some 0\<rparr>) (Some 600) 150 False = Some (Inr (Some 0))"
    using OutstandingBalance_cases [where p = "example_params\<lparr>PricePerByte := Some 0\<rparr>" and price = 0 and unseal = 0 and funds = 600 and sent = 150 and fin = False]
    by (simp add: example_params_def)
  from 1 2 3 4 show ?thesis by simp
qed

text \<open>
  Claim C2, as amended. With an unseal price and funds that are not nil and a price per
  byte that is not nil and not negative, \<^verbatim>\<open>OutstandingBalance\<close> returns an amount that
  is not negative, and that is 0 exactly when the funds received reach the unseal price
  plus the bytes to pay for times the price per byte. The bytes to pay for are \<open>sent\<close>
  in finalization and \<open>lowerBound\<close> outside it. When the funds cover the unseal price
  and the price per byte is not zero, \<open>lowerBound\<close> must be what
  \<^verbatim>\<open>IntervalLowerBound(sent)\<close> returns and the bytes to pay for must be below \<open>2 ^ 63\<close>;
  on the two earlier returns the loop is not called and \<open>lowerBound\<close> is any number.
\<close>

theorem OutstandingBalance_zero_iff:
  assumes "PricePerByte p = Some price" and "UnsealPrice p = Some unseal" and "0 \<le> price"
    and "minimumBytesToPay = (if fin then sent else lowerBound)"
    and priced: "unseal \<le> funds \<and> price \<noteq> 0 \<longrightarrow>
       IntervalLowerBound p sent = Some lowerBound \<and> unat minimumBytesToPay < 2 ^ 63"
  shows "\<exists>owed. OutstandingBalance p (Some funds) sent fin = Some (Inr (Some owed))
           \<and> 0 \<le> owed
           \<and> (owed = 0 \<longleftrightarrow> unseal + uint minimumBytesToPay * price \<le> funds)"
proof -
  have nn: "0 \<le> uint minimumBytesToPay * price" using assms(3) by simp
  consider "funds < unseal" | "unseal \<le> funds" "price = 0" | "unseal \<le> funds" "price \<noteq> 0"
    by linarith
  then show ?thesis
  proof cases
    case 1
    then have "OutstandingBalance p (Some funds) sent fin = Some (Inr (Some (unseal - funds)))"
      using assms(2) by (simp add: OutstandingBalance_unseal_short)
    moreover have "0 \<le> unseal - funds" "unseal - funds \<noteq> 0"
      "\<not> unseal + uint minimumBytesToPay * price \<le> funds" using 1 nn by linarith+
    ultimately show ?thesis by simp
  next
    case 2
    then have "OutstandingBalance p (Some funds) sent fin = Some (Inr (Some 0))"
      using assms(1,2) by (simp add: OutstandingBalance_free)
    then show ?thesis using 2 by simp
  next
    case 3
    with priced have lb: "IntervalLowerBound p sent = Some lowerBound"
      and small: "unat minimumBytesToPay < 2 ^ 63" by blast+
    have "OutstandingBalance p (Some funds) sent fin =
        Some (Inr (Some (max 0 (uint minimumBytesToPay * price - (funds - unseal)))))"
      using assms(2) 3(1) assms(1) 3(2) lb assms(4) small
      by (rule OutstandingBalance_priced_small)
    moreover have "max 0 (uint minimumBytesToPay * price - (funds - unseal)) = 0
        \<longleftrightarrow> unseal + uint minimumBytesToPay * price \<le> funds" by (simp add: max_def) linarith
    ultimately show ?thesis by simp
  qed
qed

text \<open>
  With interval and increase both zero and a price per byte that is not zero, the call in
  finalization never returns: \<^verbatim>\<open>IntervalLowerBound(sent)\<close> is evaluated first and loops.
\<close>

theorem OutstandingBalance_cases_counterexample:
  "OutstandingBalance stalled_params (Some 0) 0 True = None"
proof (rule OutstandingBalance_diverges [where unseal = 0 and price = 10])
  show "IntervalLowerBound stalled_params 0 = None" by (simp add: stalled_diverges)
qed (simp_all add: stalled_params_def example_params_def)

text \<open>
  The funds (50) cover the unseal price (0) plus 5 bytes at 10 each, in finalization; with
  interval and increase zero the call never returns, so it does not return 0.
\<close>

theorem OutstandingBalance_zero_iff_counterexample:
  "(0::int) + uint (5 :: 64 word) * 10 \<le> 50 \<and>
   OutstandingBalance stalled_params (Some 50) 5 True = None"
proof -
  have "OutstandingBalance stalled_params (Some 50) 5 True = None"
  proof (rule OutstandingBalance_diverges [where unseal = 0 and price = 10])
    show "IntervalLowerBound stalled_params 5 = None" by (simp add: stalled_diverges)
  qed (simp_all add: stalled_params_def example_params_def)
  then show ?thesis by simp
qed

text \<open>
  The worked example outside finalization; a free deal and an unpaid unseal fee on a
  schedule with interval and increase zero, in finalization: both return (0 and 60).
\<close>

theorem OutstandingBalance_zero_iff_witness:
  "(\<exists>owed. OutstandingBalance example_params (Some 600) 150 False = Some (Inr (Some owed))
      \<and> 0 \<le> owed \<and> (owed = 0 \<longleftrightarrow> 0 + uint (100 :: 64 word) * 10 \<le> (600 :: int)))
   \<and> (\<exists>owed. OutstandingBalance free_stalled_params (Some 50) 5 True = Some (Inr (Some owed))
      \<and> 0 \<le> owed \<and> (owed = 0 \<longleftrightarrow> 0 + uint (5 :: 64 word) * 0 \<le> (50 :: int)))
   \<and> (\<exists>owed. OutstandingBalance fee_stalled_params (Some 40) 5 True = Some (Inr (Some owed))
      \<and> 0 \<le> owed \<and> (owed = 0 \<longleftrightarrow> 100 + uint (5 :: 64 word) * 10 \<le> (40 :: int)))"
proof (intro conjI)
  show "\<exists>owed. OutstandingBalance example_params (Some 600) 150 False = Some (Inr (Some owed))
      \<and> 0 \<le> owed \<and> (owed = 0 \<longleftrightarrow> 0 + uint (100 :: 64 word) * 10 \<le> (600 :: int))"
    using OutstandingBalance_zero_iff [where p = example_params and price = 10 and unseal = 0
      and sent = 150 and lowerBound = 100 and minimumBytesToPay = 100 and fin = False
      and funds = 600] ex_lower_bound
    by (simp add: example_params_def)
  show "\<exists>owed. OutstandingBalance free_stalled_params (Some 50) 5 True = Some (Inr (Some owed))
      \<and> 0 \<le> owed \<and> (owed = 0 \<longleftrightarrow> 0 + uint (5 :: 64 word) * 0 \<le> (50 :: int))"
    using OutstandingBalance_zero_iff [where p = free_stalled_params and price = 0 and unseal = 0
      and sent = 5 and lowerBound = 0 and minimumBytesToPay = 5 and fin = True and funds = 50]
    by (simp add: free_stalled_params_def stalled_params_def example_params_def)
  show "\<exists>owed. OutstandingBalance fee_stalled_params (Some 40) 5 True = Some (Inr (Some owed))
      \<and> 0 \<le> owed \<and> (owed = 0 \<longleftrightarrow> 100 + uint (5 :: 64 word) * 10 \<le> (40 :: int))"
    using OutstandingBalance_zero_iff [where p = fee_stalled_params and price = 10 and unseal = 100
      and sent = 5 and lowerBound = 0 and minimumBytesToPay = 5 and fin = True and funds = 40]
    by (simp add: fee_stalled_params_def stalled_params_def example_params_def)
qed

text \<open>
  Claim C4. The worked example's parameters with a nil price per byte, funds 0 covering the
  unseal price 0: \<^verbatim>\<open>OutstandingBalance\<close> calls \<^verbatim>\<open>IsZero\<close> on the nil price and panics;
  it does not return 0 as it does for a zero price. \<^verbatim>\<open>NextInterval\<close> on the same
  parameters tests \<^verbatim>\<open>NilOrZero\<close> and returns 0.
\<close>

theorem OutstandingBalance_nil_price_panics:
  "OutstandingBalance nil_price_params (Some 0) 0 False = Some (Inl NilPointerDereference)"
  by (rule OutstandingBalance_nil_price [where unseal = 0])
     (simp_all add: nil_price_params_def example_params_def)

lemma NextInterval_nil_price: "NextInterval nil_price_params (Some 0) = Some (Inr 0)"
  by (simp add: NextInterval_def nil_price_params_def)

lemma OutstandingBalance_zero_price:
  "OutstandingBalance (example_params\<lparr>PricePerByte := Some 0\<rparr>) (Some 0) 0 False = Some (Inr (Some 0))"
  by (rule OutstandingBalance_free [where unseal = 0]) (simp_all add: example_params_def)

section \<open>Fetching an unsealed piece: the two passes\<close>

lemma prefer_unsealed_append:
  "prefer_unsealed r (xs @ ys) w =
     (case prefer_unsealed r xs w of
        (Some reader, w') \<Rightarrow> (Some reader, w')
      | (None, w') \<Rightarrow> prefer_unsealed r ys w')"
  by (induction xs arbitrary: w) (auto split: prod.splits sum.splits option.splits)

lemma unseal_first_append:
  "unseal_first r (xs @ ys) lastErr w =
     (case unseal_first r xs lastErr w of
        (Inr reader, w') \<Rightarrow> (Inr reader, w')
      | (Inl err, w') \<Rightarrow> unseal_first r ys err w')"
  by (induction xs arbitrary: w lastErr) (auto split: prod.splits sum.splits)

lemma FetchUnsealedPiece_no_piece_info:
  "GetPieceInfo (pieceStore m) pieceCid w = (Inl err, w0) \<Longrightarrow>
   FetchUnsealedPiece m pieceCid w = (Inl (Wrapped ''failed to fetch pieceInfo'' err), w0)"
  by (simp add: FetchUnsealedPiece_def)

lemma FetchUnsealedPiece_no_deals:
  "GetPieceInfo (pieceStore m) pieceCid w = (Inr pieceInfo, w0) \<Longrightarrow> Deals pieceInfo = [] \<Longrightarrow>
   FetchUnsealedPiece m pieceCid w = (Inl (New ''no storage deals for Piece''), w0)"
  by (simp add: FetchUnsealedPiece_def)

lemma FetchUnsealedPiece_first_pass:
  assumes "GetPieceInfo (pieceStore m) pieceCid w = (Inr pieceInfo, w0)"
    and "Deals pieceInfo = pre @ deal # post"
    and "prefer_unsealed (rm m) pre w0 = (None, w1)"
    and "isUnsealed_of (rm m) deal w1 = (Inr True, w2)"
    and "unsealSector_of (rm m) deal w2 = (Inr reader, w3)"
  shows "FetchUnsealedPiece m pieceCid w = (Inr reader, w3)"
  using assms by (simp add: FetchUnsealedPiece_def prefer_unsealed_append)

lemma FetchUnsealedPiece_second_pass:
  assumes "GetPieceInfo (pieceStore m) pieceCid w = (Inr pieceInfo, w0)"
    and "Deals pieceInfo = pre @ deal # post"
    and "prefer_unsealed (rm m) (Deals pieceInfo) w0 = (None, w1)"
    and "unseal_first (rm m) pre (New ''no sectors found to unseal from'') w1 = (Inl err, w2)"
    and "unsealSector_of (rm m) deal w2 = (Inr reader, w3)"
  shows "FetchUnsealedPiece m pieceCid w = (Inr reader, w3)"
  using assms by (simp add: FetchUnsealedPiece_def unseal_first_append)

lemma FetchUnsealedPiece_all_fail:
  assumes "GetPieceInfo (pieceStore m) pieceCid w = (Inr pieceInfo, w0)"
    and "Deals pieceInfo = pre @ [deal]"
    and "prefer_unsealed (rm m) (Deals pieceInfo) w0 = (None, w1)"
    and "unseal_first (rm m) pre (New ''no sectors found to unseal from'') w1 = (Inl err, w2)"
    and "unsealSector_of (rm m) deal w2 = (Inl lastErr, w3)"
  shows "FetchUnsealedPiece m pieceCid w = (Inl lastErr, w3)"
  using assms by (simp add: FetchUnsealedPiece_def unseal_first_append)

text \<open>
  Claim C3. Let the piece have the locations \<open>pre @ deal # post\<close>.
  In the first pass an error of the availability check on \<open>deal\<close> is dropped and the
  pass goes on with \<open>post\<close>, as it does on the answer no and after a failed open.
  If the first pass opened nothing in \<open>pre\<close> and \<open>deal\<close> answers yes and opens, that
  reader is the result, in the world as the open left it: nothing of \<open>post\<close> is called.
  A reader of the first pass is returned as it is. Only when the first pass ends without a
  reader does the second pass run: if every location of \<open>pre\<close> failed to unseal and
  \<open>deal\<close> unseals, that reader is the result, and nothing of \<open>post\<close> is called; if
  \<open>deal\<close> is the last location and fails too, the result is the error of that last call.
\<close>

theorem FetchUnsealedPiece_two_passes:
  assumes info: "GetPieceInfo (pieceStore m) pieceCid w = (Inr pieceInfo, w0)"
    and deals: "Deals pieceInfo = pre @ deal # post"
  shows
    "(isUnsealed_of (rm m) deal w1 = (Inl err, w2) \<longrightarrow>
        prefer_unsealed (rm m) (deal # post) w1 = prefer_unsealed (rm m) post w2)
   \<and> (isUnsealed_of (rm m) deal w1 = (Inr False, w2) \<longrightarrow>
        prefer_unsealed (rm m) (deal # post) w1 = prefer_unsealed (rm m) post w2)
   \<and> (isUnsealed_of (rm m) deal w1 = (Inr True, w2)
        \<and> unsealSector_of (rm m) deal w2 = (Inl err, w3) \<longrightarrow>
        prefer_unsealed (rm m) (deal # post) w1 = prefer_unsealed (rm m) post w3)
   \<and> (prefer_unsealed (rm m) pre w0 = (None, w1)
        \<and> isUnsealed_of (rm m) deal w1 = (Inr True, w2)
        \<and> unsealSector_of (rm m) deal w2 = (Inr reader, w3) \<longrightarrow>
        FetchUnsealedPiece m pieceCid w = (Inr reader, w3))
   \<and> (prefer_unsealed (rm m) (Deals pieceInfo) w0 = (Some reader, w1) \<longrightarrow>
        FetchUnsealedPiece m pieceCid w = (Inr reader, w1))
   \<and> (prefer_unsealed (rm m) (Deals pieceInfo) w0 = (None, w1)
        \<and> unseal_first (rm m) pre (New ''no sectors found to unseal from'') w1 = (Inl err, w2)
        \<and> unsealSector_of (rm m) deal w2 = (Inr reader, w3) \<longrightarrow>
        FetchUnsealedPiece m pieceCid w = (Inr reader, w3))
   \<and> (prefer_unsealed (rm m) (Deals pieceInfo) w0 = (None, w1)
        \<and> unseal_first (rm m) pre (New ''no sectors found to unseal from'') w1 = (Inl err, w2)
        \<and> post = [] \<and> unsealSector_of (rm m) deal w2 = (Inl lastErr, w3) \<longrightarrow>
        FetchUnsealedPiece m pieceCid w = (Inl lastErr, w3))"
proof (intro conjI impI)
  assume "isUnsealed_of (rm m) deal w1 = (Inl err, w2)"
  then show "prefer_unsealed (rm m) (deal # post) w1 = prefer_unsealed (rm m) post w2"
    by simp
next
  assume "isUnsealed_of (rm m) deal w1 = (Inr False, w2)"
  then show "prefer_unsealed (rm m) (deal # post) w1 = prefer_unsealed (rm m) post w2"
    by simp
next
  assume "isUnsealed_of (rm m) deal w1 = (Inr True, w2)
        \<and> unsealSector_of (rm m) deal w2 = (Inl err, w3)"
  then show "prefer_unsealed (rm m) (deal # post) w1 = prefer_unsealed (rm m) post w3"
    by simp
next
  assume "prefer_unsealed (rm m) pre w0 = (None, w1)
        \<and> isUnsealed_of (rm m) deal w1 = (Inr True, w2)
        \<and> unsealSector_of (rm m) deal w2 = (Inr reader, w3)"
  then show "FetchUnsealedPiece m pieceCid w = (Inr reader, w3)"
    using FetchUnsealedPiece_first_pass [OF info deals] by blast
next
  assume "prefer_unsealed (rm m) (Deals pieceInfo) w0 = (Some reader, w1)"
  then show "FetchUnsealedPiece m pieceCid w = (Inr reader, w1)"
    using info deals by (simp add: FetchUnsealedPiece_def)
next
  assume "prefer_unsealed (rm m) (Deals pieceInfo) w0 = (None, w1)
        \<and> unseal_first (rm m) pre (New ''no sectors found to unseal from'') w1 = (Inl err, w2)
        \<and> unsealSector_of (rm m) deal w2 = (Inr reader, w3)"
  then show "FetchUnsealedPiece m pieceCid w = (Inr reader, w3)"
    using FetchUnsealedPiece_second_pass [OF info deals] by blast
next
  assume h: "prefer_unsealed (rm m) (Deals pieceInfo) w0 = (None, w1)
        \<and> unseal_first (rm m) pre (New ''no sectors found to unseal from'') w1 = (Inl err, w2)
        \<and> post = [] \<and> unsealSector_of (rm m) deal w2 = (Inl lastErr, w3)"
  then have "Deals pieceInfo = pre @ [deal]" using deals by simp
  from FetchUnsealedPiece_all_fail [OF info this] h
  show "FetchUnsealedPiece m pieceCid w = (Inl lastErr, w3)" by blast
qed

text \<open>
  Three locations, only the third already unsealed. When every sector opens, the calls are
  the three checks and one open, of the third. When only the second sector can be unsealed,
  the open of the third comes first and fails, then the second pass tries the first and
  the second. When no sector can be unsealed the error is that of the last call.
\<close>

lemma logging_calls:
  "isUnsealed_of (logging_node available unseal) d log
     = (available (SectorID d), log @ [AskedIsUnsealed (SectorID d)])"
  "unsealSector_of (logging_node available unseal) d log
     = (unseal (SectorID d), log @ [AskedUnsealSector (SectorID d)])"
  by (simp_all add: isUnsealed_of_def unsealSector_of_def logging_node_def)

lemma logging_info:
  "GetPieceInfo (pieceStore (logging_mount info available unseal)) pieceCid log = (Inr info, log)"
  "rm (logging_mount info available unseal) = logging_node available unseal"
  "Deals three_locations = [deal_in 1, deal_in 2] @ deal_in 3 # []"
  "SectorID (deal_in s) = s"
  by (simp_all add: logging_mount_def three_locations_def deal_in_def)

lemma third_available_simps:
  "third_available 1 = Inr False"
  "third_available 2 = Inl (New ''sector index unavailable'')"
  "third_available 3 = Inr True"
  by (simp_all add: third_available_def)

theorem FetchUnsealedPiece_two_passes_witness:
  "FetchUnsealedPiece (logging_mount three_locations third_available unseal_all) [] []
     = (Inr [3], [AskedIsUnsealed 1, AskedIsUnsealed 2, AskedIsUnsealed 3, AskedUnsealSector 3])
   \<and> FetchUnsealedPiece (logging_mount three_locations third_available unseal_only_second) [] []
     = (Inr [2], [AskedIsUnsealed 1, AskedIsUnsealed 2, AskedIsUnsealed 3, AskedUnsealSector 3,
          AskedUnsealSector 1, AskedUnsealSector 2])
   \<and> FetchUnsealedPiece (logging_mount three_locations third_available unseal_none) [] []
     = (Inl (Wrapped ''unseal failed'' (New ''three'')),
        [AskedIsUnsealed 1, AskedIsUnsealed 2, AskedIsUnsealed 3, AskedUnsealSector 3,
          AskedUnsealSector 1, AskedUnsealSector 2, AskedUnsealSector 3])"
proof -
  let ?checks = "[AskedIsUnsealed 1, AskedIsUnsealed 2]"
  have pre: "prefer_unsealed (logging_node third_available u) [deal_in 1, deal_in 2] [] = (None, ?checks)"
    for u
    by (simp add: logging_calls logging_info(4) third_available_simps)
  have a: "FetchUnsealedPiece (logging_mount three_locations third_available unseal_all) [] []
     = (Inr [3], [AskedIsUnsealed 1, AskedIsUnsealed 2, AskedIsUnsealed 3, AskedUnsealSector 3])"
    using FetchUnsealedPiece_two_passes [OF
          logging_info(1) [of three_locations third_available unseal_all "[]" "[]"] logging_info(3),
        where ?w1.0 = ?checks and ?w2.0 = "?checks @ [AskedIsUnsealed 3]"
          and ?w3.0 = "?checks @ [AskedIsUnsealed 3, AskedUnsealSector 3]" and reader = "[3]"]
      pre [of unseal_all]
    by (simp add: logging_info(2) logging_info(4) logging_calls third_available_simps unseal_all_def)
  let ?one = "[AskedIsUnsealed 1, AskedIsUnsealed 2, AskedIsUnsealed 3, AskedUnsealSector 3]"
  have all1: "prefer_unsealed (logging_node third_available unseal_only_second)
        (Deals three_locations) [] = (None, ?one)"
    by (simp add: logging_info(3) logging_info(4) logging_calls third_available_simps unseal_only_second_def)
  have all2: "prefer_unsealed (logging_node third_available unseal_none)
        (Deals three_locations) [] = (None, ?one)"
    by (simp add: logging_info(3) logging_info(4) logging_calls third_available_simps unseal_none_def)
  have split2: "Deals three_locations = [deal_in 1] @ deal_in 2 # [deal_in 3]"
    by (simp add: three_locations_def)
  have b: "FetchUnsealedPiece (logging_mount three_locations third_available unseal_only_second) [] []
     = (Inr [2], ?one @ [AskedUnsealSector 1, AskedUnsealSector 2])"
    using FetchUnsealedPiece_two_passes [OF
          logging_info(1) [of three_locations third_available unseal_only_second "[]" "[]"] split2,
        where ?w1.0 = ?one and ?w2.0 = "?one @ [AskedUnsealSector 1]"
          and ?w3.0 = "?one @ [AskedUnsealSector 1, AskedUnsealSector 2]" and reader = "[2]"
          and err = "Wrapped ''unseal failed'' (New ''one'')"]
      all1
    by (simp add: logging_info(2) logging_info(4) logging_calls unseal_only_second_def)
  have c: "FetchUnsealedPiece (logging_mount three_locations third_available unseal_none) [] []
     = (Inl (Wrapped ''unseal failed'' (New ''three'')),
        ?one @ [AskedUnsealSector 1, AskedUnsealSector 2, AskedUnsealSector 3])"
    using FetchUnsealedPiece_two_passes [OF
          logging_info(1) [of three_locations third_available unseal_none "[]" "[]"] logging_info(3),
        where ?w1.0 = ?one
          and ?w2.0 = "?one @ [AskedUnsealSector 1, AskedUnsealSector 2]"
          and ?w3.0 = "?one @ [AskedUnsealSector 1, AskedUnsealSector 2, AskedUnsealSector 3]"
          and err = "Wrapped ''unseal failed'' (New ''other'')"
          and lastErr = "Wrapped ''unseal failed'' (New ''three'')"]
      all2
    by (simp add: logging_info(2) logging_info(4) logging_calls unseal_none_def)
  from a b c show ?thesis by simp
qed

text \<open>
  For a node that answers from tables, the result in the words of the specification: the
  reader of the first location that is ready and opens; failing that, the reader of the
  first location that opens; failing that, the error of the last location.
\<close>

lemma prefer_unsealed_find:
  "fst (prefer_unsealed (logging_node available unseal) deals log) =
     (case find (\<lambda>d. ready available d \<and> opens unseal d) deals of
        None \<Rightarrow> None
      | Some d \<Rightarrow> (case unseal (SectorID d) of Inr reader \<Rightarrow> Some reader | Inl err \<Rightarrow> None))"
proof (induction deals arbitrary: log)
  case Nil
  show ?case by simp
next
  case (Cons d deals)
  show ?case
    by (cases "available (SectorID d)"; cases "unseal (SectorID d)")
       (auto simp: logging_calls Cons.IH ready_def opens_def)
qed

lemma unseal_first_find:
  "fst (unseal_first (logging_node available unseal) deals lastErr log) =
     (case find (opens unseal) deals of
        Some d \<Rightarrow> unseal (SectorID d)
      | None \<Rightarrow> (if deals = [] then Inl lastErr else unseal (SectorID (last deals))))"
proof (induction deals arbitrary: log lastErr)
  case Nil
  show ?case by simp
next
  case (Cons d deals)
  show ?case
    by (cases "unseal (SectorID d)") (auto simp: logging_calls Cons.IH opens_def split: option.splits)
qed

lemma FetchUnsealedPiece_find:
  assumes "Deals info \<noteq> []"
  shows "fst (FetchUnsealedPiece (logging_mount info available unseal) pieceCid log) =
     (case find (\<lambda>d. ready available d \<and> opens unseal d) (Deals info) of
        Some d \<Rightarrow> unseal (SectorID d)
      | None \<Rightarrow>
          (case find (opens unseal) (Deals info) of
             Some d \<Rightarrow> unseal (SectorID d)
           | None \<Rightarrow> unseal (SectorID (last (Deals info)))))"
proof -
  let ?r = "logging_node available unseal"
  obtain res log1 where p1: "prefer_unsealed ?r (Deals info) log = (res, log1)"
    by (cases "prefer_unsealed ?r (Deals info) log")
  have res: "res = (case find (\<lambda>d. ready available d \<and> opens unseal d) (Deals info) of
        None \<Rightarrow> None
      | Some d \<Rightarrow> (case unseal (SectorID d) of Inr reader \<Rightarrow> Some reader | Inl err \<Rightarrow> None))"
    using prefer_unsealed_find [of available unseal "Deals info" log] p1 by simp
  show ?thesis
  proof (cases "find (\<lambda>d. ready available d \<and> opens unseal d) (Deals info)")
    case None
    then have "res = None" using res by simp
    then show ?thesis
      using assms p1 None unseal_first_find [of available unseal "Deals info" _ log1]
      by (simp add: FetchUnsealedPiece_def logging_mount_def)
  next
    case (Some d)
    then have "opens unseal d" by (auto simp: find_Some_iff)
    then obtain reader where rd: "unseal (SectorID d) = Inr reader"
      by (cases "unseal (SectorID d)") (auto simp: opens_def)
    then have "res = Some reader" using res Some by simp
    then show ?thesis
      using assms p1 Some rd by (simp add: FetchUnsealedPiece_def logging_mount_def)
  qed
qed

section \<open>Deal status, parameter construction and decoding\<close>

text \<open>
  Claim C8. Whatever the four status codes are, a status is terminal exactly when it is
  deal-not-found, failing, rejected or completed; it is a terminal error exactly when it
  is one of the first three, and a terminal success exactly when it is completed.
\<close>

theorem terminal_status_classification:
  "(IsTerminalStatus K status \<longleftrightarrow>
      status \<in> {DealStatusDealNotFound K, DealStatusFailing K, DealStatusRejected K,
                 DealStatusCompleted K})
   \<and> (IsTerminalError K status \<longleftrightarrow>
      status \<in> {DealStatusDealNotFound K, DealStatusFailing K, DealStatusRejected K})
   \<and> (IsTerminalSuccess K status \<longleftrightarrow> status \<in> {DealStatusCompleted K})"
  by (auto simp: IsTerminalStatus_def IsTerminalError_def IsTerminalSuccess_def)

theorem terminal_status_classification_witness:
  "IsTerminalStatus example_codes 16 \<and> IsTerminalStatus example_codes 8
   \<and> IsTerminalStatus example_codes 9 \<and> IsTerminalStatus example_codes 15
   \<and> \<not> IsTerminalStatus example_codes 13 \<and> \<not> IsTerminalError example_codes 15
   \<and> \<not> IsTerminalSuccess example_codes 8"
  using terminal_status_classification [of example_codes 16]
    terminal_status_classification [of example_codes 8]
    terminal_status_classification [of example_codes 9]
    terminal_status_classification [of example_codes 15]
    terminal_status_classification [of example_codes 13]
  by (simp add: example_codes_def)

text \<open>
  Claim C10, as amended. \<^verbatim>\<open>NewParamsV1\<close> with a nil selector returns the zero value of
  \<^verbatim>\<open>Params\<close> and an error; with a selector that is not nil it returns no error and the
  parameters holding exactly the six arguments; \<^verbatim>\<open>SelectorSpecified\<close> is true of that
  result exactly when the selector is not the null node.
\<close>

theorem NewParamsV1_result:
  "NewParamsV1 pricePerByte paymentInterval paymentIntervalIncrease None pieceCid unsealPrice
     = (Params_zero, Some (New ''selector required for NewParamsV1''))
   \<and> NewParamsV1 pricePerByte paymentInterval paymentIntervalIncrease (Some sel) pieceCid unsealPrice
     = (\<lparr>Selector = \<lparr>Node = Some sel\<rparr>, PieceCID = pieceCid, PricePerByte = pricePerByte,
          PaymentInterval = paymentInterval, PaymentIntervalIncrease = paymentIntervalIncrease,
          UnsealPrice = unsealPrice\<rparr>, None)
   \<and> (SelectorSpecified (fst (NewParamsV1 pricePerByte paymentInterval paymentIntervalIncrease
          (Some sel) pieceCid unsealPrice)) \<longleftrightarrow> sel \<noteq> NNull)"
  by (simp add: NewParamsV1_def SelectorSpecified_def IsNull_def)

theorem NewParamsV1_result_counterexample:
  "snd (NewParamsV1 (Some 10) 100 50 (Some NNull) None (Some 0)) = None
   \<and> \<not> SelectorSpecified (fst (NewParamsV1 (Some 10) 100 50 (Some NNull) None (Some 0)))"
  by (simp add: NewParamsV1_def SelectorSpecified_def IsNull_def)

lemma conforms_fields_length: "conforms_fields fs kvs \<Longrightarrow> length kvs = length fs"
proof (induction fs arbitrary: kvs)
  case Nil
  then show ?case by simp
next
  case (Cons f fs)
  then show ?case by (cases f; cases kvs) auto
qed

lemma conforms_tuple_length: "conforms_tuple fs ns \<Longrightarrow> length ns = length fs"
proof (induction fs arbitrary: ns)
  case Nil
  then show ?case by simp
next
  case (Cons f fs)
  then show ?case by (cases f; cases ns) auto
qed

lemma validate_iff_conforms:
  "(validate s n = None) = conforms s n"
  "(validate_fields fs kvs = None) = conforms_fields fs kvs"
  "(validate_tuple fs ns = None) = conforms_tuple fs ns"
  "(validate_all s ns = None) = conforms_all s ns"
proof (induction s n and fs kvs and fs ns and s ns
    rule: conforms_conforms_fields_conforms_tuple_conforms_all.induct)
  case (8 fs n)
  then show ?case
    by (cases n) (auto dest: conforms_fields_length)
next
  case (9 fs n)
  then show ?case
    by (cases n) (auto dest: conforms_tuple_length)
qed (auto split: Node.splits option.splits)

lemma TypeFromNode_rejects:
  "\<not> conforms (BindnodeSchema ptrValue) node \<Longrightarrow>
   \<exists>err. validate (BindnodeSchema ptrValue) node = Some err
       \<and> TypeFromNode build node ptrValue = Inl err"
  by (cases "validate (BindnodeSchema ptrValue) node")
     (auto simp: TypeFromNode_def validate_iff_conforms(1) [symmetric])

text \<open>
  Claim C7. Each of the three decoders answers a nil node with the error "empty voucher"
  before the node is looked at, whatever the generic decoding does. With the generic
  decoding that validates the node, a node that does not have the shape of the message's
  schema (a null payload, a wrong field count, a field of the wrong type) is answered with
  the validation error wrapped under the name of the message and with no value; a node
  that has the shape is answered with no error. None of the three has a step that can
  panic.
\<close>

theorem FromNode_errors:
  "DealProposalFromNode typeFromNode None = (None, Some (New ''empty voucher''))
   \<and> DealResponseFromNode typeFromNode None = (None, Some (New ''empty voucher''))
   \<and> DealPaymentFromNode typeFromNode None = (None, Some (New ''empty voucher''))
   \<and> (\<not> conforms DealProposal_schema n \<longrightarrow>
        (\<exists>err. validate DealProposal_schema n = Some err
           \<and> DealProposalFromNode (TypeFromNode build) (Some n)
               = (None, Some (Wrapped ''invalid DealProposal'' err))))
   \<and> (\<not> conforms DealResponse_schema n \<longrightarrow>
        (\<exists>err. validate DealResponse_schema n = Some err
           \<and> DealResponseFromNode (TypeFromNode build) (Some n)
               = (None, Some (Wrapped ''invalid DealResponse'' err))))
   \<and> (\<not> conforms DealPayment_schema n \<longrightarrow>
        (\<exists>err. validate DealPayment_schema n = Some err
           \<and> DealPaymentFromNode (TypeFromNode build) (Some n)
               = (None, Some (Wrapped ''invalid DealPayment'' err))))
   \<and> (conforms DealProposal_schema n \<longrightarrow>
        snd (DealProposalFromNode (TypeFromNode build) (Some n)) = None)
   \<and> (conforms DealResponse_schema n \<longrightarrow>
        snd (DealResponseFromNode (TypeFromNode build) (Some n)) = None)
   \<and> (conforms DealPayment_schema n \<longrightarrow>
        snd (DealPaymentFromNode (TypeFromNode build) (Some n)) = None)"
proof (intro conjI impI)
  assume "\<not> conforms DealProposal_schema n"
  then have "\<not> conforms (BindnodeSchema DealProposalPtr) n" by simp
  from TypeFromNode_rejects [OF this, of build]
  show "\<exists>err. validate DealProposal_schema n = Some err
           \<and> DealProposalFromNode (TypeFromNode build) (Some n)
               = (None, Some (Wrapped ''invalid DealProposal'' err))"
    by (auto simp: DealProposalFromNode_def)
next
  assume "\<not> conforms DealResponse_schema n"
  then have "\<not> conforms (BindnodeSchema DealResponsePtr) n" by simp
  from TypeFromNode_rejects [OF this, of build]
  show "\<exists>err. validate DealResponse_schema n = Some err
           \<and> DealResponseFromNode (TypeFromNode build) (Some n)
               = (None, Some (Wrapped ''invalid DealResponse'' err))"
    by (auto simp: DealResponseFromNode_def)
next
  assume "\<not> conforms DealPayment_schema n"
  then have "\<not> conforms (BindnodeSchema DealPaymentPtr) n" by simp
  from TypeFromNode_rejects [OF this, of build]
  show "\<exists>err. validate DealPayment_schema n = Some err
           \<and> DealPaymentFromNode (TypeFromNode build) (Some n)
               = (None, Some (Wrapped ''invalid DealPayment'' err))"
    by (auto simp: DealPaymentFromNode_def)
next
  assume "conforms DealProposal_schema n"
  then have "validate (BindnodeSchema DealProposalPtr) n = None"
    by (simp add: validate_iff_conforms(1))
  then show "snd (DealProposalFromNode (TypeFromNode build) (Some n)) = None"
    by (simp add: DealProposalFromNode_def TypeFromNode_def)
next
  assume "conforms DealResponse_schema n"
  then have "validate (BindnodeSchema DealResponsePtr) n = None"
    by (simp add: validate_iff_conforms(1))
  then show "snd (DealResponseFromNode (TypeFromNode build) (Some n)) = None"
    by (simp add: DealResponseFromNode_def TypeFromNode_def)
next
  assume "conforms DealPayment_schema n"
  then have "validate (BindnodeSchema DealPaymentPtr) n = None"
    by (simp add: validate_iff_conforms(1))
  then show "snd (DealPaymentFromNode (TypeFromNode build) (Some n)) = None"
    by (simp add: DealPaymentFromNode_def TypeFromNode_def)
qed (simp_all add: DealProposalFromNode_def DealResponseFromNode_def DealPaymentFromNode_def)

theorem FromNode_errors_witness:
  "DealResponseFromNode (TypeFromNode blank_build) None = (None, Some (New ''empty voucher''))
   \<and> DealResponseFromNode (TypeFromNode blank_build) (Some NNull)
       = (None, Some (Wrapped ''invalid DealResponse'' (New ''expected a map'')))
   \<and> DealResponseFromNode (TypeFromNode blank_build) (Some short_response)
       = (None, Some (Wrapped ''invalid DealResponse'' (New ''wrong field count'')))
   \<and> DealResponseFromNode (TypeFromNode blank_build) (Some mistyped_response)
       = (None, Some (Wrapped ''invalid DealResponse''
            (Wrapped ''Status'' (New ''expected an Int''))))
   \<and> DealProposalFromNode (TypeFromNode blank_build) (Some (NList []))
       = (None, Some (Wrapped ''invalid DealProposal'' (New ''expected a map'')))
   \<and> DealPaymentFromNode (TypeFromNode blank_build) (Some (NInt 7))
       = (None, Some (Wrapped ''invalid DealPayment'' (New ''expected a map'')))
   \<and> snd (DealResponseFromNode (TypeFromNode blank_build) (Some good_response)) = None"
proof -
  have v: "validate DealResponse_schema NNull = Some (New ''expected a map'')"
    "validate DealResponse_schema short_response = Some (New ''wrong field count'')"
    "validate DealResponse_schema mistyped_response
       = Some (Wrapped ''Status'' (New ''expected an Int''))"
    "validate DealProposal_schema (NList []) = Some (New ''expected a map'')"
    "validate DealPayment_schema (NInt 7) = Some (New ''expected a map'')"
    by (simp_all add: DealResponse_schema_def DealProposal_schema_def DealPayment_schema_def
        short_response_def mistyped_response_def)
  have c: "\<not> conforms DealResponse_schema NNull" "\<not> conforms DealResponse_schema short_response"
    "\<not> conforms DealResponse_schema mistyped_response" "\<not> conforms DealProposal_schema (NList [])"
    "\<not> conforms DealPayment_schema (NInt 7)" "conforms DealResponse_schema good_response"
    by (simp_all add: DealResponse_schema_def DealProposal_schema_def DealPayment_schema_def
        short_response_def mistyped_response_def good_response_def)
  show ?thesis
    using FromNode_errors [of "TypeFromNode blank_build" NNull blank_build]
      FromNode_errors [of "TypeFromNode blank_build" short_response blank_build]
      FromNode_errors [of "TypeFromNode blank_build" mistyped_response blank_build]
      FromNode_errors [of "TypeFromNode blank_build" "NList []" blank_build]
      FromNode_errors [of "TypeFromNode blank_build" "NInt 7" blank_build]
      FromNode_errors [of "TypeFromNode blank_build" good_response blank_build]
      v c
    by auto
qed

end
